theory Spec2Isabelle
  imports Complex_Main "HOL-Library.Signed_Division" "HOL-Library.Multiset" "HOL-Library.Sublist"
begin

section \<open>Data model (types/migration.ts)\<close>

text \<open>
  JavaScript strings are modelled as \<^typ>\<open>string\<close>; one \<^typ>\<open>char\<close> stands for one UTF-16
  code unit below 256. The string-literal union types of the source become datatypes, with
  a function giving the literal each constructor stands for.
\<close>

record MailboxRow =
  SourceEmail :: string
  TargetEmail :: string
  DisplayName :: string

datatype ValidationStatus = V_Passed | V_Warning | V_Failed

record ValidationResult = MailboxRow +
  SourceExists :: bool
  TargetExists :: bool
  SourceSize :: real
  ValidationStatus :: ValidationStatus
  ValidationMessages :: "string list"
  ValidationIssues :: "string list"

datatype MigrationStatus = M_In_Progress | M_Completed | M_Failed


record MigrationResult = MailboxRow +
  StartTime :: string
  EndTime :: "string option"
  Duration :: "string option"
  Status :: MigrationStatus
  ItemsMigrated :: nat
  DataMigrated :: string
  ErrorMessage :: string

record MigrationStats =
  Total :: nat
  Successful :: nat
  Failed :: nat
  Skipped :: nat
  InProgress :: nat

text \<open>
  \<open>BatchSize\<close> is a number of the request's JSON body, which the server does not check:
  it may be zero, negative or fractional. Numbers are modelled as reals. On whole numbers
  the sums and comparisons of the loop are exact in JavaScript as well; a sum of fractional
  numbers is rounded there, which the model leaves out.
\<close>

record MigrationConfig =
  BatchSize :: real
  ValidateOnly :: bool
  SkipValidation :: bool
  ReportPath :: string

datatype LogLevel = L_Info | L_Success | L_Warning | L_Error | L_Progress

record LogEntry =
  timestamp :: string
  level :: LogLevel
  message :: string
  mailboxId :: "string option"

datatype SessionStatus =
  S_idle | S_validating | S_ready | S_migrating | S_completed | S_error

record MigrationSession =
  session_id :: string
  config :: MigrationConfig
  mailboxList :: "MailboxRow list"
  validationResults :: "ValidationResult list option"
  migrationResults :: "MigrationResult list"
  stats :: MigrationStats
  logs :: "LogEntry list"
  status :: SessionStatus
  startTime :: "string option"
  endTime :: "string option"

text \<open>A JavaScript \<open>Date\<close>, as far as the code reads it: its epoch milliseconds and its ISO text.\<close>

record Date =
  getTime :: int
  toISOString :: string

section \<open>Number formatting\<close>

text \<open>\<open>Number.prototype.toString\<close> on an integer, and \<open>String.prototype.padStart(2, '0')\<close>.\<close>

fun digits :: "nat \<Rightarrow> string" where
  "digits n = (if n < 10 then [''0123456789'' ! n]
               else digits (n div 10) @ [''0123456789'' ! (n mod 10)])"

declare digits.simps [simp del]

definition toString :: "int \<Rightarrow> string" where
  "toString i = (if i < 0 then CHR ''-'' # digits (nat (- i)) else digits (nat i))"

definition padStart2 :: "string \<Rightarrow> string" where
  "padStart2 s = replicate (2 - length s) CHR ''0'' @ s"

section \<open>migration-utils: calculateStats and simulateMigration\<close>

definition calculateStats :: "MigrationResult list \<Rightarrow> MigrationStats" where
  "calculateStats results =
     \<lparr> Total = length results,
       Successful = length (filter (\<lambda>r. Status r = M_Completed) results),
       Failed = length (filter (\<lambda>r. Status r = M_Failed) results),
       Skipped = 0,
       InProgress = length (filter (\<lambda>r. Status r = M_In_Progress) results) \<rparr>"

text \<open>
  What \<open>connector.startMigration\<close> does for one item is outside the orchestrator: its promise
  either resolves with \<open>{success, moveRequestId?, error?}\<close> or rejects with a thrown value,
  which is an \<open>Error\<close> carrying a message or something else.
\<close>

record MoveAnswer =
  success :: bool
  moveRequestId :: "string option"
  error :: "string option"

datatype thrown = Error_with string | Non_Error

datatype settle = Resolves MoveAnswer | Rejects thrown

text \<open>
  Everything one item's callback reads from outside: the clock at \<open>new Date()\<close> in
  \<open>simulateMigration\<close> (start and finish), the settlement of the move, the two
  \<open>Math.random()\<close> draws (\<open>Math.floor(Math.random() * 50000)\<close> and the text of
  \<open>(Math.random() * 5 + 0.1).toFixed(2)\<close>), the clock at the two \<open>new Date()\<close> of the
  catch block, and the instant the promise settles, which orders the callbacks of a batch.
\<close>

record ItemWorld =
  w_startTime :: Date
  w_settle :: settle
  w_finishTime :: Date
  w_itemsDraw :: nat
  w_dataDraw :: string
  w_catchStart :: Date
  w_catchEnd :: Date
  w_settledAt :: int

text \<open>
  Lines 144 to 147 of \<open>simulateMigration\<close>: \<open>Math.floor(durationMs / 60000)\<close>,
  \<open>Math.floor((durationMs % 60000) / 1000)\<close> (the remainder of JavaScript takes the sign of
  the dividend), both printed and padded to two characters.
\<close>

definition formatDuration :: "int \<Rightarrow> string" where
  "formatDuration durationMs =
     (let minutes = durationMs div 60000;
          seconds = (durationMs smod 60000) div 1000
      in padStart2 (toString minutes) @ '':'' @ padStart2 (toString seconds))"

definition orElse :: "string option \<Rightarrow> string \<Rightarrow> string" where
  "orElse v d = (case v of None \<Rightarrow> d | Some s \<Rightarrow> if s = [] then d else s)"

definition simulateMigration :: "MailboxRow \<Rightarrow> ItemWorld \<Rightarrow> thrown + MigrationResult" where
  "simulateMigration mailbox w =
     (case w_settle w of
        Rejects e \<Rightarrow> Inl e
      | Resolves migrationResult \<Rightarrow>
          (let durationMs = getTime (w_finishTime w) - getTime (w_startTime w);
               result = \<lparr> SourceEmail = SourceEmail mailbox,
                          TargetEmail = TargetEmail mailbox,
                          DisplayName = DisplayName mailbox,
                          StartTime = toISOString (w_startTime w),
                          EndTime = Some (toISOString (w_finishTime w)),
                          Duration = Some (formatDuration durationMs),
                          Status = M_In_Progress,
                          ItemsMigrated = 0,
                          DataMigrated = ''0 MB'',
                          ErrorMessage = [] \<rparr>
           in if success migrationResult
              then Inr (result\<lparr> Status := M_Completed,
                                 ItemsMigrated := w_itemsDraw w + 1000,
                                 DataMigrated := w_dataDraw w @ '' GB'' \<rparr>)
              else Inr (result\<lparr> Status := M_Failed,
                                 ErrorMessage := orElse (error migrationResult) ''Migration failed'' \<rparr>)))"

section \<open>The migrate route: session creation and processMigration\<close>

text \<open>The session literal that \<open>POST\<close> stores; an empty \<open>sessionId\<close> is rejected with 400.\<close>

definition newSession :: "string \<Rightarrow> MailboxRow list \<Rightarrow> MigrationConfig \<Rightarrow> Date \<Rightarrow> MigrationSession" where
  "newSession sessionId mailboxes cfg now =
     \<lparr> session_id = sessionId,
       config = cfg,
       mailboxList = mailboxes,
       validationResults = None,
       migrationResults = [],
       stats = \<lparr> Total = length mailboxes, Successful = 0, Failed = 0, Skipped = 0, InProgress = 0 \<rparr>,
       logs = [],
       status = S_migrating,
       startTime = Some (toISOString now),
       endTime = None \<rparr>"

definition thrownMessage :: "thrown \<Rightarrow> string" where
  "thrownMessage e = (case e of Error_with m \<Rightarrow> m | Non_Error \<Rightarrow> ''Unknown error'')"

text \<open>The \<open>failedResult\<close> literal of the catch block.\<close>

definition failedResult :: "MailboxRow \<Rightarrow> ItemWorld \<Rightarrow> thrown \<Rightarrow> MigrationResult" where
  "failedResult mailbox w e =
     \<lparr> SourceEmail = SourceEmail mailbox,
       TargetEmail = TargetEmail mailbox,
       DisplayName = DisplayName mailbox,
       StartTime = toISOString (w_catchStart w),
       EndTime = Some (toISOString (w_catchEnd w)),
       Duration = Some ''00:00'',
       Status = M_Failed,
       ItemsMigrated = 0,
       DataMigrated = ''0 MB'',
       ErrorMessage = thrownMessage e \<rparr>"

text \<open>
  The body of the \<open>batch.map\<close> callback from the point where \<open>simulateMigration\<close> settles.
  It runs without suspension, so a progress tick sees the session before it or after it.
  The try branch bumps a counter, pushes the result and recomputes the stats; the catch
  branch bumps \<open>Failed\<close> and pushes \<open>failedResult\<close>. The logger calls and the local
  \<open>processedCount\<close>, which nothing reads, are left out.
\<close>

definition itemCallback :: "MigrationSession \<Rightarrow> MailboxRow \<Rightarrow> ItemWorld \<Rightarrow> MigrationSession" where
  "itemCallback session mailbox w =
     (case simulateMigration mailbox w of
        Inr result \<Rightarrow>
          (let s1 = (if Status result = M_Completed
                     then session\<lparr> stats := (stats session)\<lparr> Successful := Successful (stats session) + 1 \<rparr> \<rparr>
                     else session\<lparr> stats := (stats session)\<lparr> Failed := Failed (stats session) + 1 \<rparr> \<rparr>);
               s2 = s1\<lparr> migrationResults := migrationResults s1 @ [result] \<rparr>
           in s2\<lparr> stats := calculateStats (migrationResults s2) \<rparr>)
      | Inl e \<Rightarrow>
          (let s1 = session\<lparr> stats := (stats session)\<lparr> Failed := Failed (stats session) + 1 \<rparr> \<rparr>
           in s1\<lparr> migrationResults := migrationResults s1 @ [failedResult mailbox w e] \<rparr>))"

text \<open>The value the callback returns: \<open>return result\<close> or \<open>return failedResult\<close>.\<close>

definition itemOutcome :: "MailboxRow \<Rightarrow> ItemWorld \<Rightarrow> MigrationResult" where
  "itemOutcome mailbox w =
     (case simulateMigration mailbox w of
        Inr result \<Rightarrow> result
      | Inl e \<Rightarrow> failedResult mailbox w e)"

text \<open>\<open>ToIntegerOrInfinity\<close> on a finite number: the fraction is dropped, towards zero.\<close>

definition toInteger :: "real \<Rightarrow> int" where
  "toInteger x = (if x < 0 then \<lceil>x\<rceil> else \<lfloor>x\<rfloor>)"

text \<open>
  \<open>Array.prototype.slice(start, end)\<close>: both bounds are made integers, and a negative
  bound counts from the end.
\<close>

definition slice :: "'a list \<Rightarrow> real \<Rightarrow> real \<Rightarrow> 'a list" where
  "slice xs start stop =
     (let len = int (length xs);
          relativeStart = toInteger start;
          relativeEnd = toInteger stop;
          from = (if relativeStart < 0 then max (len + relativeStart) 0 else min relativeStart len);
          to = (if relativeEnd < 0 then max (len + relativeEnd) 0 else min relativeEnd len)
      in take (nat (to - from)) (drop (nat from) xs))"

text \<open>
  The state of one run of \<open>processMigration\<close>: the session object, and two histories kept
  for stating properties: the value of \<open>batch\<close> in each iteration so far, and every value
  the session has had at a point where other code (a progress tick, a report request) can
  run.
\<close>

record Run =
  session :: MigrationSession
  batches :: "MailboxRow list list"
  observed :: "MigrationSession list"

definition settleItem :: "(nat \<Rightarrow> ItemWorld) \<Rightarrow> nat \<times> MailboxRow \<Rightarrow> Run \<Rightarrow> Run" where
  "settleItem env item r =
     (let s = itemCallback (session r) (snd item) (env (fst item))
      in r\<lparr> session := s, observed := observed r @ [s] \<rparr>)"

text \<open>
  One iteration of the \<open>for\<close> loop: the batch is sliced, all its items are started, and
  \<open>Promise.all\<close> waits until every callback has run; the callbacks run in the order in which
  the moves settle. Items are paired with their position in \<open>mailboxList\<close>, which selects
  their world.
\<close>

definition runBatch :: "(nat \<Rightarrow> ItemWorld) \<Rightarrow> MailboxRow list \<Rightarrow> real \<Rightarrow> real \<Rightarrow> Run \<Rightarrow> Run" where
  "runBatch env mailboxes batchSize i r =
     (let batch = slice (enumerate 0 mailboxes) i (i + batchSize)
      in fold (settleItem env) (sort_key (\<lambda>item. w_settledAt (env (fst item))) batch)
           (r\<lparr> batches := batches r @ [map snd batch] \<rparr>))"

text \<open>
  \<open>for (let i = 0; i < totalMailboxes; i += batchSize)\<close>, run for at most \<open>fuel\<close>
  iterations; the result is the loop variable and the state reached.
\<close>

fun forLoop :: "nat \<Rightarrow> (nat \<Rightarrow> ItemWorld) \<Rightarrow> MailboxRow list \<Rightarrow> real \<Rightarrow> real \<Rightarrow> Run \<Rightarrow> real \<times> Run" where
  "forLoop 0 env mailboxes batchSize i r = (i, r)"
| "forLoop (Suc fuel) env mailboxes batchSize i r =
     (if i < real (length mailboxes)
      then forLoop fuel env mailboxes batchSize (i + batchSize) (runBatch env mailboxes batchSize i r)
      else (i, r))"

text \<open>
  The statements after the loop: the session is marked completed and stamped. The
  assignment \<open>session.logs = logger.getLogs()\<close> is left out with the logger.
\<close>

definition finish :: "Date \<Rightarrow> Run \<Rightarrow> Run" where
  "finish now r =
     (let s = (session r)\<lparr> status := S_completed, endTime := Some (toISOString now) \<rparr>
      in r\<lparr> session := s, observed := observed r @ [s] \<rparr>)"

definition startRun :: "MigrationSession \<Rightarrow> Run" where
  "startRun s = \<lparr> session = s, batches = [], observed = [s] \<rparr>"

text \<open>
  \<open>processMigration\<close> on the session that \<open>POST\<close> has just stored. \<open>None\<close> means that the
  loop has not ended within \<open>fuel\<close> iterations.
\<close>

definition processMigration ::
  "nat \<Rightarrow> (nat \<Rightarrow> ItemWorld) \<Rightarrow> Date \<Rightarrow> MigrationSession \<Rightarrow> Run option" where
  "processMigration fuel env endNow s =
     (case forLoop fuel env (mailboxList s) (BatchSize (config s)) 0 (startRun s) of
        (i, r) \<Rightarrow> if i < real (length (mailboxList s)) then None else Some (finish endNow r))"

text \<open>
  Every value the session of a run has had after at most \<open>fuel\<close> loop iterations,
  whether or not the loop has ended by then.
\<close>

definition sessionStates ::
  "nat \<Rightarrow> (nat \<Rightarrow> ItemWorld) \<Rightarrow> Date \<Rightarrow> MigrationSession \<Rightarrow> MigrationSession list" where
  "sessionStates fuel env endNow s =
     (case forLoop fuel env (mailboxList s) (BatchSize (config s)) 0 (startRun s) of
        (i, r) \<Rightarrow> if i < real (length (mailboxList s)) then observed r else observed (finish endNow r))"

section \<open>The progress route: server-sent events\<close>

text \<open>
  The two process-wide maps of the migrate route; a logger is represented by its entries.
\<close>

record Store =
  activeSessions :: "string \<rightharpoonup> MigrationSession"
  sessionLoggers :: "string \<rightharpoonup> LogEntry list"

text \<open>The \<open>data\<close> objects passed to \<open>sendEvent\<close>, by their \<open>type\<close> field.\<close>

datatype SseEvent =
    Connected string
  | ErrorEvent string
  | LogEvent LogEntry
  | ProgressEvent MigrationStats SessionStatus "MigrationResult list"
  | CompleteEvent MigrationSession

text \<open>
  A response stream: what has been enqueued, whether the interval timer is still set, and
  whether the controller has been closed.
\<close>

record Stream =
  sent :: "SseEvent list"
  timerActive :: bool
  closed :: bool

definition sendEvent :: "SseEvent \<Rightarrow> Stream \<Rightarrow> Stream" where
  "sendEvent ev st = st\<lparr> sent := sent st @ [ev] \<rparr>"

text \<open>\<open>clearInterval(interval); controller.close()\<close>\<close>

definition closeStream :: "Stream \<Rightarrow> Stream" where
  "closeStream st = st\<lparr> timerActive := False, closed := True \<rparr>"

text \<open>
  \<open>GET\<close>: a request without a \<open>sessionId\<close> (absent or empty) is answered with status 400;
  otherwise the stream starts, sends the connection message and sets the timer.
\<close>

definition GET_progress :: "string option \<Rightarrow> (nat \<times> string) + Stream" where
  "GET_progress sessionId =
     (case sessionId of
        None \<Rightarrow> Inl (400, ''Missing sessionId'')
      | Some sid \<Rightarrow>
          if sid = [] then Inl (400, ''Missing sessionId'')
          else Inr (sendEvent (Connected ''Progress stream connected'')
                      \<lparr> sent = [], timerActive = True, closed = False \<rparr>))"

text \<open>The interval callback, run against the maps as they are at that second.\<close>

definition tick :: "string \<Rightarrow> Store \<Rightarrow> Stream \<Rightarrow> Stream" where
  "tick sessionId store st =
     (case (activeSessions store sessionId, sessionLoggers store sessionId) of
        (Some sess, Some entries) \<Rightarrow>
          (let st1 = (if length entries > 0 then sendEvent (LogEvent (last entries)) st else st);
               st2 = sendEvent (ProgressEvent (stats sess) (status sess) (migrationResults sess)) st1
           in if status sess = S_completed \<or> status sess = S_error
              then closeStream (sendEvent (CompleteEvent (sess\<lparr> logs := entries \<rparr>)) st2)
              else st2)
      | _ \<Rightarrow> closeStream (sendEvent (ErrorEvent ''Session not found'') st))"

text \<open>
  What happens to a stream: the timer fires, or the client disconnects. A cleared timer
  does not fire, so a tick changes nothing once the timer is cleared.
\<close>

datatype StreamInput = Tick Store | Abort

definition streamStep :: "string \<Rightarrow> StreamInput \<Rightarrow> Stream \<Rightarrow> Stream" where
  "streamStep sessionId inp st =
     (case inp of
        Tick store \<Rightarrow> if timerActive st then tick sessionId store st else st
      | Abort \<Rightarrow> closeStream st)"

definition progressStream :: "string option \<Rightarrow> StreamInput list \<Rightarrow> (nat \<times> string) + Stream" where
  "progressStream sessionId inputs =
     (case GET_progress sessionId of
        Inl response \<Rightarrow> Inl response
      | Inr st \<Rightarrow> Inr (fold (streamStep (the sessionId)) inputs st))"

section \<open>Validation: the connector's lookup and validateMailbox\<close>

text \<open>
  The value that \<open>connector.validateMailbox\<close> resolves with:
  \<open>{exists, size?, itemCount?, database?, error?}\<close>.
\<close>

record MailboxDetails =
  exists :: bool
  sizeMB :: "real option"
  itemCount :: "nat option"
  database :: "string option"
  lookupError :: "string option"

text \<open>
  The simulation branch of \<open>ExchangeConnector.validateMailbox\<close>. The sum of the character
  codes decides existence; \<open>r1\<close> and \<open>r2\<close> are the two \<open>Math.random()\<close> draws.
\<close>

definition mockValidateMailbox :: "string \<Rightarrow> real \<Rightarrow> real \<Rightarrow> MailboxDetails" where
  "mockValidateMailbox email r1 r2 =
     (let hash = sum_list (map of_char email) :: nat;
          exists = (hash mod 10 \<noteq> 0)
      in if exists
         then \<lparr> exists = True,
                sizeMB = Some (r1 * 5000 + 100),
                itemCount = Some (nat \<lfloor>r2 * 50000\<rfloor> + 1000),
                database = Some ''SimulatedDB01'',
                lookupError = None \<rparr>
         else \<lparr> exists = False, sizeMB = None, itemCount = None, database = None,
                lookupError = Some ''Mailbox not found'' \<rparr>)"

text \<open>
  The character class \<open>[^\s@]\<close> on code units below 256: not a white space character of
  JavaScript (tab, line feed, vertical tab, form feed, carriage return, space, no-break
  space) and not \<open>@\<close>.
\<close>

definition notSpaceOrAt :: "char \<Rightarrow> bool" where
  "notSpaceOrAt c \<longleftrightarrow> (of_char c :: nat) \<notin> {9, 10, 11, 12, 13, 32, 160} \<and> c \<noteq> CHR ''@''"

text \<open>
  \<open>/^[^\s@]+@[^\s@]+\.[^\s@]+$/.test(s)\<close>: the string splits at an \<open>@\<close> at position \<open>i\<close> and
  a dot at position \<open>j\<close> into three non-empty pieces of characters of the class.
\<close>

definition emailRegex_test :: "string \<Rightarrow> bool" where
  "emailRegex_test s =
     list_ex (\<lambda>i. list_ex (\<lambda>j.
        s ! i = CHR ''@'' \<and> s ! j = CHR ''.'' \<and> 0 < i \<and> i + 1 < j \<and> j + 1 < length s \<and>
        list_all notSpaceOrAt (take i s) \<and>
        list_all notSpaceOrAt (take (j - (i + 1)) (drop (i + 1) s)) \<and>
        list_all notSpaceOrAt (drop (j + 1) s))
       [0..<length s]) [0..<length s]"

text \<open>
  \<open>validateMailbox\<close> of migration-utils, given what the connector's lookup resolved with.
  \<open>localeText\<close> is \<open>Number.prototype.toLocaleString\<close> of the runtime. The warning sign that
  opens the last message is outside the code units below 256 and is written as the bytes
  of its UTF-8 form.
\<close>

definition validateMailbox :: "(nat \<Rightarrow> string) \<Rightarrow> MailboxRow \<Rightarrow> MailboxDetails \<Rightarrow> ValidationResult" where
  "validateMailbox localeText mailbox sourceValidation =
     (let targetEmailValid = emailRegex_test (TargetEmail mailbox);
          validation = \<lparr> SourceEmail = SourceEmail mailbox,
                         TargetEmail = TargetEmail mailbox,
                         DisplayName = DisplayName mailbox,
                         SourceExists = exists sourceValidation,
                         TargetExists = False,
                         SourceSize = (case sizeMB sourceValidation of None \<Rightarrow> 0 | Some x \<Rightarrow> x),
                         ValidationStatus = V_Passed,
                         ValidationMessages = [],
                         ValidationIssues = [] \<rparr>
      in if \<not> exists sourceValidation
         then validation\<lparr> ValidationStatus := V_Failed,
                           ValidationIssues := ValidationIssues validation @ [''Source mailbox not found''],
                           ValidationMessages := ValidationMessages validation @
                             [''Source mailbox '' @ SourceEmail mailbox @ '' does not exist''] \<rparr>
         else if \<not> targetEmailValid
         then validation\<lparr> ValidationStatus := V_Failed,
                           ValidationIssues := ValidationIssues validation @ [''Invalid target email format''],
                           ValidationMessages := ValidationMessages validation @
                             [''Target email '' @ TargetEmail mailbox @ '' is not valid''] \<rparr>
         else
           (let v1 = validation\<lparr> ValidationMessages := ValidationMessages validation @
                       [''Source mailbox exists ('' @ toString \<lfloor>SourceSize validation + 1 / 2\<rfloor> @ ''MB, ''
                          @ (case itemCount sourceValidation of None \<Rightarrow> ''undefined'' | Some n \<Rightarrow> localeText n)
                          @ '' items)''] \<rparr>;
                v2 = (case database sourceValidation of
                        None \<Rightarrow> v1
                      | Some db \<Rightarrow>
                          if db = [] then v1
                          else v1\<lparr> ValidationMessages := ValidationMessages v1 @ [''Database: '' @ db] \<rparr>)
            in if SourceSize v2 > 10000
               then v2\<lparr> ValidationStatus := V_Warning,
                         ValidationIssues := ValidationIssues v2 @
                           [''Large mailbox (>10GB) - migration may take extended time''],
                         ValidationMessages := ValidationMessages v2 @
                           [[CHR 0xE2, CHR 0x9A, CHR 0xA0, CHR 0xEF, CHR 0xB8, CHR 0x8F] @
                            '' Large mailbox detected - consider scheduling during off-hours''] \<rparr>
               else v2))"

section \<open>Reports: generateReportHTML and the reports route\<close>



















section \<open>Properties of sessions and sample data\<close>

text \<open>The counters of a session other than \<open>Total\<close> agree with a recount of its results.\<close>

definition countsMatch :: "MigrationSession \<Rightarrow> bool" where
  "countsMatch s \<longleftrightarrow>
     Successful (stats s) = length (filter (\<lambda>r. Status r = M_Completed) (migrationResults s)) \<and>
     Failed (stats s) = length (filter (\<lambda>r. Status r = M_Failed) (migrationResults s)) \<and>
     InProgress (stats s) = length (filter (\<lambda>r. Status r = M_In_Progress) (migrationResults s)) \<and>
     Skipped (stats s) = 0"

definition allTerminal :: "MigrationSession \<Rightarrow> bool" where
  "allTerminal s \<longleftrightarrow>
     list_all (\<lambda>r. Status r = M_Completed \<or> Status r = M_Failed) (migrationResults s)"

text \<open>A progress event whose three counters add up to the number of results it carries.\<close>

definition progressConsistent :: "SseEvent \<Rightarrow> bool" where
  "progressConsistent ev =
     (case ev of
        ProgressEvent st stt rs \<Rightarrow> Successful st + Failed st + InProgress st = length rs
      | _ \<Rightarrow> True)"

text \<open>
  A sample run: two mailboxes; the move of the first succeeds after 75 seconds, the move
  of the second raises and settles first.
\<close>

definition demoA :: MailboxRow where
  "demoA = \<lparr> SourceEmail = ''a@x.com'', TargetEmail = ''a@y.com'', DisplayName = ''A'' \<rparr>"

definition demoB :: MailboxRow where
  "demoB = \<lparr> SourceEmail = ''b@x.com'', TargetEmail = ''b@y.com'', DisplayName = ''B'' \<rparr>"

definition demoConfig :: "real \<Rightarrow> MigrationConfig" where
  "demoConfig b = \<lparr> BatchSize = b, ValidateOnly = False, SkipValidation = False, ReportPath = [] \<rparr>"

definition dateAt :: "int \<Rightarrow> Date" where
  "dateAt ms = \<lparr> getTime = ms, toISOString = ''T+'' @ toString ms \<rparr>"

definition demoEnv :: "nat \<Rightarrow> ItemWorld" where
  "demoEnv k =
     \<lparr> w_startTime = dateAt 1000,
       w_settle = (if k = 0
                   then Resolves \<lparr> success = True, moveRequestId = Some ''Move-1'', error = None \<rparr>
                   else Rejects (Error_with ''connection lost'')),
       w_finishTime = dateAt 76000,
       w_itemsDraw = 41,
       w_dataDraw = ''2.50'',
       w_catchStart = dateAt 5000,
       w_catchEnd = dateAt 5000,
       w_settledAt = 10 - int k \<rparr>"

definition demoStates :: "MigrationSession list" where
  "demoStates =
     sessionStates 2 demoEnv (dateAt 9000) (newSession ''s1'' [demoA, demoB] (demoConfig 1) (dateAt 0))"

text \<open>The number of batches of size \<open>b\<close> that cover \<open>N\<close> records.\<close>

definition batchCount :: "nat \<Rightarrow> nat \<Rightarrow> nat" where
  "batchCount N b = (N + b - 1) div b"

text \<open>
  For a positive batch size \<open>B\<close>: the number of iterations that the loop makes over \<open>N\<close>
  records, and the position in the list at which iteration \<open>k\<close> starts.
\<close>

definition iterations :: "nat \<Rightarrow> real \<Rightarrow> nat" where
  "iterations N B = nat \<lceil>real N / B\<rceil>"

definition cut :: "real \<Rightarrow> nat \<Rightarrow> nat" where
  "cut B k = nat \<lfloor>real k * B\<rfloor>"

definition demoStart :: MigrationSession where
  "demoStart = newSession ''s1'' [demoA, demoB] (demoConfig 1) (dateAt 0)"

definition demoLocale :: "nat \<Rightarrow> string" where
  "demoLocale n = toString (int n)"

definition detailsOfSize :: "real \<Rightarrow> MailboxDetails" where
  "detailsOfSize x = \<lparr> exists = True, sizeMB = Some x, itemCount = Some 1200,
                        database = Some ''DB01'', lookupError = None \<rparr>"

definition emptyStore :: Store where
  "emptyStore = \<lparr> activeSessions = Map.empty, sessionLoggers = Map.empty \<rparr>"

definition demoStore :: Store where
  "demoStore = \<lparr> activeSessions = [''s1'' \<mapsto> demoStart], sessionLoggers = [''s1'' \<mapsto> []] \<rparr>"

text \<open>
  Reading a duration text back: the part before the colon, the part after it, and the
  number that a string of decimal digits denotes.
\<close>

definition readNat :: "string \<Rightarrow> nat" where
  "readNat s = foldl (\<lambda>a c. 10 * a + (of_char c - 48)) 0 s"

definition minutesField :: "string \<Rightarrow> string" where
  "minutesField s = takeWhile (\<lambda>c. c \<noteq> CHR '':'') s"

definition secondsField :: "string \<Rightarrow> string" where
  "secondsField s = drop 1 (dropWhile (\<lambda>c. c \<noteq> CHR '':'') s)"

definition hourWorld :: ItemWorld where
  "hourWorld = (demoEnv 0)\<lparr> w_startTime := dateAt 0, w_finishTime := dateAt 3600000 \<rparr>"

definition hourResult :: MigrationResult where
  "hourResult =
     \<lparr> SourceEmail = ''a@x.com'', TargetEmail = ''a@y.com'', DisplayName = ''A'',
       StartTime = ''T+0'', EndTime = Some ''T+3600000'', Duration = Some ''60:00'',
       Status = M_Completed, ItemsMigrated = 1041, DataMigrated = ''2.50 GB'',
       ErrorMessage = [] \<rparr>"


















section \<open>Printing numbers\<close>

lemma digits_small: "n < 10 \<Longrightarrow> digits n = [''0123456789'' ! n]"
  by (subst digits.simps) simp

lemma digits_step: "10 \<le> n \<Longrightarrow> digits n = digits (n div 10) @ [''0123456789'' ! (n mod 10)]"
  by (subst digits.simps) simp

section \<open>Invariants of a run\<close>

lemma fold_settleItem_inv:
  assumes step: "\<And>s m w. P s \<Longrightarrow> P (itemCallback s m w)"
  shows "P (session r) \<Longrightarrow> list_all P (observed r) \<Longrightarrow>
         P (session (fold (settleItem env) items r)) \<and>
         list_all P (observed (fold (settleItem env) items r))"
proof (induction items arbitrary: r)
  case Nil
  then show ?case by simp
next
  case (Cons a items)
  have "P (session (settleItem env a r))"
    using Cons.prems(1) step by (simp add: settleItem_def Let_def)
  moreover have "list_all P (observed (settleItem env a r))"
    using Cons.prems step by (simp add: settleItem_def Let_def)
  ultimately show ?case using Cons.IH by simp
qed

lemma runBatch_inv:
  assumes step: "\<And>s m w. P s \<Longrightarrow> P (itemCallback s m w)"
    and "P (session r)" and "list_all P (observed r)"
  shows "P (session (runBatch env ml B i r)) \<and> list_all P (observed (runBatch env ml B i r))"
  unfolding runBatch_def Let_def
  by (rule fold_settleItem_inv [where P = P, OF step]) (use assms in simp_all)

lemma forLoop_inv:
  assumes step: "\<And>s m w. P s \<Longrightarrow> P (itemCallback s m w)"
  shows "P (session r) \<Longrightarrow> list_all P (observed r) \<Longrightarrow>
         P (session (snd (forLoop fuel env ml B i r))) \<and>
         list_all P (observed (snd (forLoop fuel env ml B i r)))"
proof (induction fuel arbitrary: i r)
  case 0
  then show ?case by simp
next
  case (Suc fuel)
  show ?case
  proof (cases "i < int (length ml)")
    case True
    have "P (session (runBatch env ml B i r)) \<and> list_all P (observed (runBatch env ml B i r))"
      by (rule runBatch_inv [where P = P, OF step]) (use Suc.prems in simp_all)
    then show ?thesis using True Suc.IH by simp
  next
    case False
    then show ?thesis using Suc.prems by simp
  qed
qed

lemma sessionStates_inv:
  assumes step: "\<And>s m w. P s \<Longrightarrow> P (itemCallback s m w)"
    and fin: "\<And>s e. P s \<Longrightarrow> P (s\<lparr> status := S_completed, endTime := e \<rparr>)"
    and init: "P s0"
  shows "list_all P (sessionStates fuel env endNow s0)"
proof -
  obtain i r where fl:
    "forLoop fuel env (mailboxList s0) (BatchSize (config s0)) 0 (startRun s0) = (i, r)"
    by (cases "forLoop fuel env (mailboxList s0) (BatchSize (config s0)) 0 (startRun s0)")
  have "P (session (snd (forLoop fuel env (mailboxList s0) (BatchSize (config s0)) 0 (startRun s0))))
      \<and> list_all P (observed (snd (forLoop fuel env (mailboxList s0) (BatchSize (config s0)) 0 (startRun s0))))"
    by (rule forLoop_inv [where P = P, OF step]) (simp_all add: startRun_def init)
  then have r: "P (session r)" "list_all P (observed r)" using fl by simp_all
  show ?thesis
    using r fin [OF r(1)] by (simp add: sessionStates_def fl finish_def Let_def)
qed

lemma sum_status_filters:
  "length (filter (\<lambda>r. Status r = M_Completed) rs) + length (filter (\<lambda>r. Status r = M_Failed) rs)
     + length (filter (\<lambda>r. Status r = M_In_Progress) rs) = length rs"
proof (induction rs)
  case Nil
  then show ?case by simp
next
  case (Cons r rs)
  then show ?case by (cases "Status r") simp_all
qed

lemma simulateMigration_terminal:
  "simulateMigration m w = Inr result \<Longrightarrow> Status result = M_Completed \<or> Status result = M_Failed"
  by (auto simp: simulateMigration_def Let_def split: settle.splits if_splits)

lemma itemCallback_countsMatch: "countsMatch s \<Longrightarrow> countsMatch (itemCallback s m w)"
  by (auto simp: countsMatch_def itemCallback_def failedResult_def calculateStats_def Let_def
      split: sum.splits)

lemma itemCallback_allTerminal: "allTerminal s \<Longrightarrow> allTerminal (itemCallback s m w)"
  by (auto simp: allTerminal_def itemCallback_def failedResult_def calculateStats_def Let_def
      split: sum.splits dest: simulateMigration_terminal)

lemma sessionStates_countsMatch:
  "list_all countsMatch (sessionStates fuel env endNow (newSession sid ml cfg now))"
  by (rule sessionStates_inv [where P = countsMatch])
     (simp_all add: itemCallback_countsMatch, simp_all add: countsMatch_def newSession_def)

lemma sessionStates_allTerminal:
  "list_all allTerminal (sessionStates fuel env endNow (newSession sid ml cfg now))"
  by (rule sessionStates_inv [where P = allTerminal])
     (simp_all add: itemCallback_allTerminal, simp_all add: allTerminal_def newSession_def)

lemmas demo_defs = demoStates_def sessionStates_def newSession_def demoConfig_def startRun_def
  runBatch_def slice_def toInteger_def enumerate_eq_zip Let_def settleItem_def demoEnv_def itemCallback_def
  simulateMigration_def demoA_def demoB_def dateAt_def finish_def calculateStats_def
  thrownMessage_def failedResult_def numeral_2_eq_2

lemma demoStates_nonempty: "demoStates \<noteq> []"
  by (simp add: demo_defs)

lemma demoStates_last_results: "length (migrationResults (last demoStates)) = 2"
  by (simp add: demo_defs)

text \<open>
  C1. In every state that the session of a run takes, from its creation by \<open>POST\<close> on,
  \<open>stats.Successful + stats.Failed + stats.InProgress\<close> equals the number of migration
  results; hence the progress event that a tick of the progress stream sends for the
  session carries counters that add up to the length of the result list it carries.
\<close>

theorem stats_sum_invariant:
  assumes "s \<in> set (sessionStates fuel env endNow (newSession sid ml cfg now))"
    and "activeSessions store sid' = Some s"
  shows "Successful (stats s) + Failed (stats s) + InProgress (stats s) = length (migrationResults s)
       \<and> list_all progressConsistent (drop (length (sent st)) (sent (tick sid' store st)))"
proof -
  have "countsMatch s"
    using assms(1) sessionStates_countsMatch [of fuel env endNow sid ml cfg now]
    by (simp add: list_all_iff)
  then have sum:
    "Successful (stats s) + Failed (stats s) + InProgress (stats s) = length (migrationResults s)"
    using sum_status_filters [of "migrationResults s"] by (simp add: countsMatch_def)
  have "list_all progressConsistent (drop (length (sent st)) (sent (tick sid' store st)))"
    using assms(2) sum
    by (simp add: tick_def sendEvent_def closeStream_def progressConsistent_def Let_def
        split: option.splits)
  with sum show ?thesis by simp
qed

theorem stats_sum_invariant_witness:
  "last demoStates \<in> set demoStates
   \<and> activeSessions \<lparr> activeSessions = [''s1'' \<mapsto> last demoStates],
                       sessionLoggers = [''s1'' \<mapsto> []] \<rparr> ''s1'' = Some (last demoStates)
   \<and> length (migrationResults (last demoStates)) = 2
   \<and> Successful (stats (last demoStates)) + Failed (stats (last demoStates))
       + InProgress (stats (last demoStates)) = length (migrationResults (last demoStates))
   \<and> list_all progressConsistent
       (drop (length (sent \<lparr> sent = [], timerActive = True, closed = False \<rparr>))
          (sent (tick ''s1'' \<lparr> activeSessions = [''s1'' \<mapsto> last demoStates],
                                sessionLoggers = [''s1'' \<mapsto> []] \<rparr>
                   \<lparr> sent = [], timerActive = True, closed = False \<rparr>)))"
proof -
  have mem: "last demoStates \<in> set (sessionStates 2 demoEnv (dateAt 9000)
               (newSession ''s1'' [demoA, demoB] (demoConfig 1) (dateAt 0)))"
    using demoStates_nonempty by (simp add: demoStates_def)
  have look: "activeSessions \<lparr> activeSessions = [''s1'' \<mapsto> last demoStates],
                 sessionLoggers = [''s1'' \<mapsto> []] \<rparr> ''s1'' = Some (last demoStates)"
    by simp
  show ?thesis
    using stats_sum_invariant [OF mem look, of "\<lparr> sent = [], timerActive = True, closed = False \<rparr>"]
      mem look demoStates_last_results
    by (simp add: demoStates_def)
qed

text \<open>
  C10. In every state that the session of a run takes, every stored migration result is
  Completed or Failed, none is In Progress; so a recount of the list gives
  \<open>InProgress = 0\<close>, and the session's own \<open>stats.InProgress\<close> is 0 as well.
\<close>

theorem outcomes_terminal:
  assumes "s \<in> set (sessionStates fuel env endNow (newSession sid ml cfg now))"
  shows "(\<forall>r \<in> set (migrationResults s). Status r = M_Completed \<or> Status r = M_Failed)
       \<and> InProgress (calculateStats (migrationResults s)) = 0
       \<and> InProgress (stats s) = 0"
proof -
  have t: "allTerminal s"
    using assms sessionStates_allTerminal [of fuel env endNow sid ml cfg now]
    by (simp add: list_all_iff)
  then have all: "\<forall>r \<in> set (migrationResults s). Status r = M_Completed \<or> Status r = M_Failed"
    by (simp add: allTerminal_def list_all_iff)
  then have none: "filter (\<lambda>r. Status r = M_In_Progress) (migrationResults s) = []"
    by (auto simp: filter_empty_conv)
  have "countsMatch s"
    using assms sessionStates_countsMatch [of fuel env endNow sid ml cfg now]
    by (simp add: list_all_iff)
  then have "InProgress (stats s) = 0"
    using none by (simp add: countsMatch_def)
  with all none show ?thesis by (simp add: calculateStats_def)
qed

theorem outcomes_terminal_witness:
  "last demoStates \<in> set demoStates
   \<and> map Status (migrationResults (last demoStates)) = [M_Completed, M_Failed]
   \<and> InProgress (calculateStats (migrationResults (last demoStates))) = 0
   \<and> InProgress (stats (last demoStates)) = 0"
proof -
  have mem: "last demoStates \<in> set (sessionStates 2 demoEnv (dateAt 9000)
               (newSession ''s1'' [demoA, demoB] (demoConfig 1) (dateAt 0)))"
    using demoStates_nonempty by (simp add: demoStates_def)
  have "map Status (migrationResults (last demoStates)) = [M_Completed, M_Failed]"
    by (simp add: demo_defs)
  then show ?thesis
    using outcomes_terminal [OF mem] mem by (simp add: demoStates_def)
qed

lemma itemCallback_try_stats:
  "simulateMigration m w = Inr result \<Longrightarrow>
   stats (itemCallback s m w) = calculateStats (migrationResults (itemCallback s m w))"
  by (simp add: itemCallback_def Let_def)

text \<open>
  C3, as amended. In every state that the session of a run takes, the counters
  \<open>Successful\<close>, \<open>Failed\<close>, \<open>InProgress\<close> and \<open>Skipped\<close> of \<open>stats\<close> equal those of
  \<open>calculateStats(migrationResults)\<close>. \<open>Total\<close> is set to the length of the mailbox list at
  session creation, and the whole \<open>stats\<close> field equals \<open>calculateStats(migrationResults)\<close>
  right after an item whose move returned has been recorded (the try branch recomputes it).
\<close>

theorem stats_counters_recomputed:
  assumes "s \<in> set (sessionStates fuel env endNow (newSession sid ml cfg now))"
    and "simulateMigration m w = Inr result"
  shows "Successful (stats s) = Successful (calculateStats (migrationResults s))
       \<and> Failed (stats s) = Failed (calculateStats (migrationResults s))
       \<and> InProgress (stats s) = InProgress (calculateStats (migrationResults s))
       \<and> Skipped (stats s) = Skipped (calculateStats (migrationResults s))
       \<and> Total (stats (newSession sid ml cfg now)) = length ml
       \<and> stats (itemCallback s m w) = calculateStats (migrationResults (itemCallback s m w))"
proof -
  have "countsMatch s"
    using assms(1) sessionStates_countsMatch [of fuel env endNow sid ml cfg now]
    by (simp add: list_all_iff)
  then show ?thesis
    using itemCallback_try_stats [OF assms(2)]
    by (simp add: countsMatch_def calculateStats_def newSession_def)
qed

theorem stats_counters_recomputed_witness:
  "last demoStates \<in> set demoStates
   \<and> simulateMigration demoA (demoEnv 0) =
       Inr \<lparr> SourceEmail = ''a@x.com'', TargetEmail = ''a@y.com'', DisplayName = ''A'',
             StartTime = ''T+1000'', EndTime = Some ''T+76000'', Duration = Some ''01:15'',
             Status = M_Completed, ItemsMigrated = 1041, DataMigrated = ''2.50 GB'',
             ErrorMessage = [] \<rparr>
   \<and> Successful (stats (last demoStates)) = Successful (calculateStats (migrationResults (last demoStates)))
   \<and> Failed (stats (last demoStates)) = Failed (calculateStats (migrationResults (last demoStates)))
   \<and> InProgress (stats (last demoStates)) = InProgress (calculateStats (migrationResults (last demoStates)))
   \<and> Skipped (stats (last demoStates)) = Skipped (calculateStats (migrationResults (last demoStates)))
   \<and> Total (stats (newSession ''s1'' [demoA, demoB] (demoConfig 1) (dateAt 0))) = length [demoA, demoB]
   \<and> stats (itemCallback (last demoStates) demoA (demoEnv 0)) =
       calculateStats (migrationResults (itemCallback (last demoStates) demoA (demoEnv 0)))"
proof -
  have mem: "last demoStates \<in> set (sessionStates 2 demoEnv (dateAt 9000)
               (newSession ''s1'' [demoA, demoB] (demoConfig 1) (dateAt 0)))"
    using demoStates_nonempty by (simp add: demoStates_def)
  have sim: "simulateMigration demoA (demoEnv 0) =
       Inr \<lparr> SourceEmail = ''a@x.com'', TargetEmail = ''a@y.com'', DisplayName = ''A'',
             StartTime = ''T+1000'', EndTime = Some ''T+76000'', Duration = Some ''01:15'',
             Status = M_Completed, ItemsMigrated = 1041, DataMigrated = ''2.50 GB'',
             ErrorMessage = [] \<rparr>"
    by (simp add: simulateMigration_def demoA_def demoEnv_def dateAt_def formatDuration_def
        toString_def padStart2_def digits_small digits_step Let_def)
  show ?thesis
    using stats_counters_recomputed [OF mem sim] mem sim by (simp add: demoStates_def)
qed

text \<open>
  C3 as stated fails at session creation: with two mailboxes the new session has
  \<open>stats.Total = 2\<close> while \<open>calculateStats\<close> of its empty result list has \<open>Total = 0\<close>.
\<close>

theorem stats_not_aggregation_at_creation:
  "demoStart \<in> set (sessionStates 0 demoEnv (dateAt 9000) demoStart)
   \<and> stats demoStart \<noteq> calculateStats (migrationResults demoStart)"
  by (simp add: demoStart_def sessionStates_def startRun_def newSession_def calculateStats_def)

section \<open>Batches\<close>

subsection \<open>Iterations and cut points\<close>

lemma iterations_less: "0 < B \<Longrightarrow> k < iterations N B \<longleftrightarrow> real k * B < real N"
proof -
  assume B: "0 < B"
  have "k < iterations N B \<longleftrightarrow> int k < \<lceil>real N / B\<rceil>"
    by (simp add: iterations_def zless_nat_eq_int_zless)
  also have "\<dots> \<longleftrightarrow> real k < real N / B"
    by (simp add: less_ceiling_iff)
  also have "\<dots> \<longleftrightarrow> real k * B < real N"
    using B by (simp add: pos_less_divide_eq)
  finally show ?thesis .
qed

lemma iterations_le: 
  assumes "1 \<le> B"
  shows "iterations N B \<le> N"
proof (rule ccontr)
  assume "\<not> iterations N B \<le> N"
  then have "N < iterations N B" by simp
  then have "real N * B < real N" using iterations_less [of B N N] assms by simp
  moreover have "real N * 1 \<le> real N * B" using assms by (intro mult_left_mono) simp_all
  ultimately show False by simp
qed

lemma cut_0: "cut B 0 = 0"
  by (simp add: cut_def)

lemma cut_mono: "0 \<le> B \<Longrightarrow> cut B k \<le> cut B (Suc k)"
proof -
  assume "0 \<le> B"
  then have "real k * B \<le> real (Suc k) * B" by (intro mult_right_mono) simp_all
  then show ?thesis unfolding cut_def by (intro nat_mono floor_mono)
qed

lemma iterations_covers:
  assumes "0 < B"
  shows "N \<le> cut B (iterations N B)"
proof -
  have "\<not> real (iterations N B) * B < real N"
    using iterations_less [OF assms, of "iterations N B" N] by simp
  then have "real_of_int (int N) \<le> real (iterations N B) * B" by simp
  then have "int N \<le> \<lfloor>real (iterations N B) * B\<rfloor>" by (simp only: le_floor_iff)
  then show ?thesis by (simp add: cut_def)
qed

lemma cut_whole: "cut (real b) k = k * b"
proof -
  have "real k * real b = real (k * b)" by simp
  then show ?thesis unfolding cut_def by (simp only: floor_of_nat nat_int)
qed


lemma slice_cut:
  assumes "0 < B"
  shows "slice xs (real k * B) (real k * B + B) =
         take (cut B (Suc k) - cut B k) (drop (cut B k) xs)"
proof -
  have nn: "\<not> real k * B < 0" "\<not> real k * B + B < 0"
    using assms by (simp_all add: not_less add_nonneg_nonneg)
  have nxt: "real k * B + B = real (Suc k) * B" by (simp add: algebra_simps)
  have f0: "0 \<le> \<lfloor>real k * B\<rfloor>" "0 \<le> \<lfloor>real (Suc k) * B\<rfloor>"
    using assms by simp_all
  have mono: "\<lfloor>real k * B\<rfloor> \<le> \<lfloor>real (Suc k) * B\<rfloor>"
    using assms by (intro floor_mono mult_right_mono) simp_all
  show ?thesis
    using f0 mono
    by (auto simp: slice_def toInteger_def nn nxt cut_def Let_def min_def nat_diff_distrib
        simp del: of_nat_Suc)
qed

lemma concat_cuts:
  assumes "0 \<le> B"
  shows "concat (map (\<lambda>k. take (cut B (Suc k) - cut B k) (drop (cut B k) xs)) [0..<K]) =
         take (cut B K) xs"
proof (induction K)
  case 0
  then show ?case by (simp add: cut_0)
next
  case (Suc K)
  have "cut B K + (cut B (Suc K) - cut B K) = cut B (Suc K)"
    using cut_mono [OF assms, of K] by simp
  then have "take (cut B K) xs @ take (cut B (Suc K) - cut B K) (drop (cut B K) xs) =
             take (cut B (Suc K)) xs"
    by (metis take_add)
  then show ?case using Suc by simp
qed


text \<open>For a whole batch size the cut points are the multiples of the size.\<close>

lemma batchCount_less: "0 < b \<Longrightarrow> j < batchCount N b \<longleftrightarrow> j * b < N"
proof -
  assume b: "0 < b"
  have "j < batchCount N b \<longleftrightarrow> Suc j \<le> (N + b - 1) div b"
    by (simp add: batchCount_def Suc_le_eq)
  also have "\<dots> \<longleftrightarrow> Suc j * b \<le> N + b - 1"
    using b by (simp add: less_eq_div_iff_mult_less_eq)
  also have "\<dots> \<longleftrightarrow> j * b < N"
    using b by auto
  finally show ?thesis .
qed



lemma iterations_whole:
  assumes b: "0 < b"
  shows "iterations N (real b) = batchCount N b"
proof -
  have "k < iterations N (real b) \<longleftrightarrow> k < batchCount N b" for k
  proof -
    have "k < iterations N (real b) \<longleftrightarrow> real k * real b < real N"
      using iterations_less [of "real b" k N] b by simp
    also have "\<dots> \<longleftrightarrow> k * b < N"
      by (metis of_nat_less_iff of_nat_mult)
    also have "\<dots> \<longleftrightarrow> k < batchCount N b"
      using batchCount_less [OF b, of k N] by simp
    finally show ?thesis .
  qed
  then show ?thesis by (meson linorder_neqE_nat less_irrefl)
qed

subsection \<open>What one item and one batch add to the session\<close>

lemma itemCallback_results:
  "migrationResults (itemCallback s m w) = migrationResults s @ [itemOutcome m w]"
  by (simp add: itemCallback_def itemOutcome_def Let_def split: sum.splits)

lemma itemCallback_status: "status (itemCallback s m w) = status s"
  by (simp add: itemCallback_def Let_def split: sum.splits)

lemma fold_settleItem_results:
  "migrationResults (session (fold (settleItem env) items r)) =
     migrationResults (session r) @ map (\<lambda>it. itemOutcome (snd it) (env (fst it))) items"
  by (induction items arbitrary: r) (simp_all add: settleItem_def Let_def itemCallback_results)

lemma fold_settleItem_batches: "batches (fold (settleItem env) items r) = batches r"
  by (induction items arbitrary: r) (simp_all add: settleItem_def Let_def)

lemma fold_settleItem_status: "status (session (fold (settleItem env) items r)) = status (session r)"
  by (induction items arbitrary: r) (simp_all add: settleItem_def Let_def itemCallback_status)

lemma runBatch_results:
  "migrationResults (session (runBatch env ml B i r)) =
     migrationResults (session r) @
     map (\<lambda>it. itemOutcome (snd it) (env (fst it)))
       (sort_key (\<lambda>item. w_settledAt (env (fst item))) (slice (enumerate 0 ml) i (i + B)))"
  by (simp add: runBatch_def Let_def fold_settleItem_results)

lemma runBatch_batches:
  "batches (runBatch env ml B i r) = batches r @ [map snd (slice (enumerate 0 ml) i (i + B))]"
  by (simp add: runBatch_def Let_def fold_settleItem_batches)

lemma runBatch_status: "status (session (runBatch env ml B i r)) = status (session r)"
  by (simp add: runBatch_def Let_def fold_settleItem_status)

lemma map_snd_take_drop_enumerate:
  "map snd (take b (drop j (enumerate 0 ml))) = take b (drop j ml)"
  by (simp add: take_map [symmetric] drop_map [symmetric] enumerate_eq_zip)

subsection \<open>The loop for a positive batch size\<close>

lemma forLoop_closed:
  assumes B: "0 < B"
  shows "j \<le> iterations (length ml) B \<Longrightarrow> iterations (length ml) B - j \<le> fuel \<Longrightarrow>
         forLoop fuel env ml B (real j * B) r =
           (real (iterations (length ml) B) * B,
            fold (\<lambda>k. runBatch env ml B (real k * B)) [j..<iterations (length ml) B] r)"
proof (induction fuel arbitrary: j r)
  case 0
  then have "j = iterations (length ml) B" by simp
  then show ?case by simp
next
  case (Suc fuel)
  show ?case
  proof (cases "j < iterations (length ml) B")
    case True
    then have guard: "real j * B < real (length ml)"
      using iterations_less [OF B, of j "length ml"] by simp
    have next_i: "real j * B + B = real (Suc j) * B" by (simp add: algebra_simps)
    have unroll: "forLoop (Suc fuel) env ml B (real j * B) r =
        forLoop fuel env ml B (real (Suc j) * B) (runBatch env ml B (real j * B) r)"
      using guard by (simp only: forLoop.simps if_True next_i)
    have rest: "forLoop fuel env ml B (real (Suc j) * B) (runBatch env ml B (real j * B) r) =
           (real (iterations (length ml) B) * B,
            fold (\<lambda>k. runBatch env ml B (real k * B)) [Suc j..<iterations (length ml) B]
              (runBatch env ml B (real j * B) r))"
      by (rule Suc.IH) (use True Suc.prems in simp_all)
    have upt: "[j..<iterations (length ml) B] = j # [Suc j..<iterations (length ml) B]"
      using True by (simp add: upt_conv_Cons)
    show ?thesis
      unfolding unroll rest upt by simp
  next
    case False
    then have eq: "j = iterations (length ml) B" using Suc.prems by simp
    have "\<not> real j * B < real (length ml)"
      using iterations_less [OF B, of j "length ml"] eq by simp
    then show ?thesis using eq by simp
  qed
qed

lemma fold_runBatch_batches:
  assumes B: "0 < B"
  shows "batches (fold (\<lambda>k. runBatch env ml B (real k * B)) ks r) =
         batches r @ map (\<lambda>k. take (cut B (Suc k) - cut B k) (drop (cut B k) ml)) ks"
proof (induction ks arbitrary: r)
  case Nil
  then show ?case by simp
next
  case (Cons k ks)
  have "batches (runBatch env ml B (real k * B) r) =
        batches r @ [take (cut B (Suc k) - cut B k) (drop (cut B k) ml)]"
    by (simp only: runBatch_batches slice_cut [OF B] map_snd_take_drop_enumerate)
  then show ?case using Cons by simp
qed

lemma fold_runBatch_results:
  assumes B: "0 < B"
  shows "migrationResults (session (fold (\<lambda>k. runBatch env ml B (real k * B)) ks r)) =
         migrationResults (session r) @
         concat (map (\<lambda>k. map (\<lambda>it. itemOutcome (snd it) (env (fst it)))
                   (sort_key (\<lambda>item. w_settledAt (env (fst item)))
                      (take (cut B (Suc k) - cut B k) (drop (cut B k) (enumerate 0 ml))))) ks)"
proof (induction ks arbitrary: r)
  case Nil
  then show ?case by simp
next
  case (Cons k ks)
  have "migrationResults (session (runBatch env ml B (real k * B) r)) =
        migrationResults (session r) @ map (\<lambda>it. itemOutcome (snd it) (env (fst it)))
          (sort_key (\<lambda>item. w_settledAt (env (fst item)))
             (take (cut B (Suc k) - cut B k) (drop (cut B k) (enumerate 0 ml))))"
    by (simp only: runBatch_results slice_cut [OF B])
  then show ?case using Cons by simp
qed

lemma fold_runBatch_status:
  "status (session (fold (\<lambda>k. runBatch env ml B (f k)) ks r)) = status (session r)"
  by (induction ks arbitrary: r) (simp_all add: runBatch_status)

lemma mset_concat_sorted_chunks:
  assumes B: "0 \<le> B"
  shows "mset (concat (map (\<lambda>k. map f (sort_key g
            (take (cut B (Suc k) - cut B k) (drop (cut B k) xs)))) [0..<K])) =
         mset (map f (take (cut B K) xs))"
proof -
  have "mset (concat (map (\<lambda>k. map f (sort_key g
            (take (cut B (Suc k) - cut B k) (drop (cut B k) xs)))) ks)) =
        mset (map f (concat (map (\<lambda>k. take (cut B (Suc k) - cut B k) (drop (cut B k) xs)) ks)))"
    for ks
    by (induction ks) simp_all
  then show ?thesis by (simp only: concat_cuts [OF B])
qed

lemma last_batch_size:
  assumes b: "0 < b" and N: "0 < N"
  shows "N - (batchCount N b - 1) * b = (if N mod b = 0 then b else N mod b)"
proof (cases "N mod b = 0")
  case True
  then have "b dvd N" by (simp add: dvd_eq_mod_eq_0)
  then obtain q' where "N = b * q'" by (auto simp: dvd_def)
  then have "N = q' * b" by (simp add: mult.commute)
  then obtain q where q: "N = q * b" by blast
  with N have qpos: "0 < q" by (cases q) simp_all
  have "(q * b + b - 1) div b = q"
    by (rule div_nat_eqI) (use b in \<open>simp_all add: algebra_simps\<close>)
  then have "batchCount N b = q" by (simp add: batchCount_def q)
  then show ?thesis using True qpos q by (cases q) simp_all
next
  case False
  define q where "q = N div b"
  define r where "r = N mod b"
  have Nqr: "N = q * b + r" by (simp add: q_def r_def)
  have r: "0 < r" "r < b" using False b by (simp_all add: r_def)
  have "(q * b + r + b - 1) div b = Suc q"
    by (rule div_nat_eqI) (use r in \<open>simp_all add: algebra_simps\<close>)
  then have "batchCount N b = Suc q" by (simp add: batchCount_def Nqr)
  then have "N - (batchCount N b - 1) * b = r" using Nqr by simp
  moreover have "N mod b = r" by (simp add: r_def)
  ultimately show ?thesis using r by simp
qed

lemma finish_fields:
  "batches (finish now r) = batches r"
  "migrationResults (session (finish now r)) = migrationResults (session r)"
  "status (session (finish now r)) = S_completed"
  by (simp_all add: finish_def Let_def)

lemma processMigration_closed:
  assumes B: "1 \<le> BatchSize (config s0)"
    and fuel: "length (mailboxList s0) \<le> fuel"
  shows "processMigration fuel env endNow s0 =
           Some (finish endNow
             (fold (\<lambda>k. runBatch env (mailboxList s0) (BatchSize (config s0))
                          (real k * BatchSize (config s0)))
                [0..<iterations (length (mailboxList s0)) (BatchSize (config s0))] (startRun s0)))"
proof -
  define Bs where "Bs = BatchSize (config s0)"
  define K where "K = iterations (length (mailboxList s0)) Bs"
  have pos: "0 < Bs" using B by (simp add: Bs_def)
  have "K \<le> fuel"
    using iterations_le [of Bs "length (mailboxList s0)"] B fuel by (simp add: K_def Bs_def)
  then have loop: "forLoop fuel env (mailboxList s0) Bs 0 (startRun s0) =
           (real K * Bs, fold (\<lambda>k. runBatch env (mailboxList s0) Bs (real k * Bs)) [0..<K] (startRun s0))"
    using forLoop_closed [OF pos, of 0 "mailboxList s0" fuel env "startRun s0"] by (simp add: K_def)
  have "\<not> real K * Bs < real (length (mailboxList s0))"
    using iterations_less [OF pos, of K "length (mailboxList s0)"] by (simp add: K_def)
  then show ?thesis
    using loop by (simp add: processMigration_def Bs_def [symmetric] K_def [symmetric])
qed

text \<open>A whole number that is at least 1 is the image of a positive natural number.\<close>

lemma whole_batch_size:
  assumes "B \<in> \<int>" and "1 \<le> B"
  shows "B = real (nat \<lfloor>B\<rfloor>)" and "0 < nat \<lfloor>B\<rfloor>"
proof -
  from assms(1) obtain z :: int where z: "B = of_int z" by (auto elim: Ints_cases)
  with assms(2) have "1 \<le> z" by simp
  then show "B = real (nat \<lfloor>B\<rfloor>)" and "0 < nat \<lfloor>B\<rfloor>" using z by simp_all
qed

text \<open>
  With a batch size of zero or less and a non-empty list the loop variable never passes
  zero, so the loop does not end, whatever the fuel.
\<close>

lemma forLoop_nonpositive:
  "B \<le> 0 \<Longrightarrow> i \<le> 0 \<Longrightarrow> ml \<noteq> [] \<Longrightarrow> fst (forLoop fuel env ml B i r) \<le> 0"
proof (induction fuel arbitrary: i r)
  case 0
  then show ?case by simp
next
  case (Suc fuel)
  have "i < real (length ml)" using Suc.prems by (cases ml) simp_all
  moreover have "fst (forLoop fuel env ml B (i + B) (runBatch env ml B i r)) \<le> 0"
    by (rule Suc.IH) (use Suc.prems in simp_all)
  ultimately show ?case by simp
qed

lemma processMigration_never_ends:
  assumes "BatchSize (config s) \<le> 0" and "mailboxList s \<noteq> []"
  shows "processMigration fuel env endNow s = None"
proof -
  obtain i r where fl:
    "forLoop fuel env (mailboxList s) (BatchSize (config s)) 0 (startRun s) = (i, r)"
    by (cases "forLoop fuel env (mailboxList s) (BatchSize (config s)) 0 (startRun s)")
  have "fst (forLoop fuel env (mailboxList s) (BatchSize (config s)) 0 (startRun s)) \<le> 0"
    by (rule forLoop_nonpositive) (use assms in simp_all)
  then have "i \<le> 0" using fl by simp
  moreover have "0 < length (mailboxList s)" using assms(2) by simp
  ultimately have "i < real (length (mailboxList s))" by linarith
  then show ?thesis using fl by (simp add: processMigration_def)
qed



text \<open>
  A batch size that is no whole number is used as it is given, and \<open>slice\<close> drops the
  fraction of each bound: with three records and the batch size 1.5 the loop forms a batch
  of one record and a batch of two.
\<close>

lemma fractional_batch_size:
  "map_option (\<lambda>r. batches r)
     (processMigration 3 demoEnv (dateAt 9000)
        (newSession ''s1'' [demoA, demoB, demoA] (demoConfig (3 / 2)) (dateAt 0))) =
   Some [[demoA], [demoB, demoA]]"
  by (simp add: processMigration_def newSession_def demoConfig_def startRun_def
      runBatch_batches fold_settleItem_batches finish_fields slice_def toInteger_def
      enumerate_eq_zip Let_def numeral_3_eq_3 split: prod.splits)

text \<open>
  C2, as amended. The batch size of the request is used as it is. For every whole-number
  batch size \<open>B \<ge> 1\<close> and every list of \<open>N\<close> records the loop ends and has formed exactly
  \<open>\<lceil>N / B\<rceil>\<close> batches; batch \<open>k\<close> holds the records from position \<open>k * B\<close> on, at most
  \<open>B\<close> of them, so the batches are consecutive and together give the list; every batch but
  the last has size \<open>B\<close>, and the last has size \<open>N mod B\<close>, or \<open>B\<close> when \<open>B\<close> divides \<open>N\<close>.
\<close>

theorem batch_partition:
  assumes "BatchSize cfg \<in> \<int>" and "1 \<le> BatchSize cfg" and "length ml \<le> fuel"
  shows "\<exists>r. processMigration fuel env endNow (newSession sid ml cfg now) = Some r
           \<and> int (length (batches r)) = \<lceil>real (length ml) / BatchSize cfg\<rceil>
           \<and> batches r = map (\<lambda>k. take (nat \<lfloor>BatchSize cfg\<rfloor>) (drop (k * nat \<lfloor>BatchSize cfg\<rfloor>) ml))
                            [0..<length (batches r)]
           \<and> concat (batches r) = ml
           \<and> (\<forall>k < length (batches r).
                 length (batches r ! k) =
                   (if Suc k < length (batches r) then nat \<lfloor>BatchSize cfg\<rfloor>
                    else if length ml mod nat \<lfloor>BatchSize cfg\<rfloor> = 0 then nat \<lfloor>BatchSize cfg\<rfloor>
                    else length ml mod nat \<lfloor>BatchSize cfg\<rfloor>))"
proof -
  define b where "b = nat \<lfloor>BatchSize cfg\<rfloor>"
  have Bb: "BatchSize cfg = real b" and b: "0 < b"
    using whole_batch_size [OF assms(1,2)] by (simp_all add: b_def)
  have Bpos: "0 < real b" using b by simp
  define N where "N = length ml"
  define K where "K = iterations N (real b)"
  have Kb: "K = batchCount N b" using iterations_whole [OF b, of N] by (simp add: K_def)
  define s0 where "s0 = newSession sid ml cfg now"
  have s0: "mailboxList s0 = ml" "config s0 = cfg" by (simp_all add: s0_def newSession_def)
  define r where "r = finish endNow
     (fold (\<lambda>k. runBatch env ml (real b) (real k * real b)) [0..<K] (startRun s0))"
  have run: "processMigration fuel env endNow s0 = Some r"
    using processMigration_closed [of s0 fuel env endNow] assms(2,3)
    by (simp add: s0 r_def K_def N_def Bb)
  have step: "cut (real b) (Suc k) - cut (real b) k = b" for k
    by (simp add: cut_whole)
  have bs: "batches r = map (\<lambda>k. take b (drop (k * b) ml)) [0..<K]"
    by (simp add: r_def finish_fields fold_runBatch_batches [OF Bpos] startRun_def cut_whole
        del: of_nat_Suc)
  then have len: "length (batches r) = K" by simp
  have "- 1 < real N / real b" by (rule less_le_trans [of _ 0]) simp_all
  then have ceil: "int (length (batches r)) = \<lceil>real (length ml) / BatchSize cfg\<rceil>"
    by (simp add: len K_def iterations_def N_def Bb)
  have covers: "N \<le> K * b"
    using iterations_covers [OF Bpos, of N] by (simp add: K_def cut_whole)
  have cat: "concat (batches r) = ml"
    using covers concat_cuts [of "real b" ml K] by (simp add: bs cut_whole N_def del: of_nat_Suc)
  have sizes: "length (batches r ! k) =
       (if Suc k < length (batches r) then b else if N mod b = 0 then b else N mod b)"
    if k: "k < length (batches r)" for k
  proof -
    have kK: "k < K" using k len by simp
    have nth: "batches r ! k = take b (drop (k * b) ml)"
      using kK by (simp add: bs)
    show ?thesis
    proof (cases "Suc k < K")
      case True
      then have "Suc k * b < N" using batchCount_less [OF b, of "Suc k" N] by (simp add: Kb)
      then have "b \<le> N - k * b" by simp
      then show ?thesis using True by (simp add: nth len N_def)
    next
      case False
      then have kl: "k = K - 1" using kK by simp
      have "k * b < N" using batchCount_less [OF b, of k N] kK by (simp add: Kb)
      then have Npos: "0 < N" by simp
      have "K * b = k * b + b" using kK kl by (cases K) simp_all
      with covers have small: "N - k * b \<le> b" by simp
      have "length (batches r ! k) = min b (N - k * b)"
        by (simp add: nth N_def)
      with small have "length (batches r ! k) = N - k * b" by simp
      with kl have "length (batches r ! k) = N - (K - 1) * b" by simp
      then show ?thesis
        using last_batch_size [OF b Npos] False len by (simp add: Kb)
    qed
  qed
  show ?thesis
    using run ceil cat sizes bs by (auto simp: s0_def b_def [symmetric] N_def len)
qed

theorem batch_partition_witness:
  "BatchSize (demoConfig 2) \<in> \<int> \<and> 1 \<le> BatchSize (demoConfig 2)
   \<and> length [demoA, demoB, demoA] \<le> 3
   \<and> (\<exists>r. processMigration 3 demoEnv (dateAt 9000)
              (newSession ''s1'' [demoA, demoB, demoA] (demoConfig 2) (dateAt 0)) = Some r
          \<and> batches r = [[demoA, demoB], [demoA]]
          \<and> concat (batches r) = [demoA, demoB, demoA]
          \<and> 1 < length (batches r)
          \<and> length (batches r ! 1) = 3 mod 2)"
proof -
  have h0: "BatchSize (demoConfig 2) \<in> \<int>" by (simp add: demoConfig_def)
  have h1: "1 \<le> BatchSize (demoConfig 2)" by (simp add: demoConfig_def)
  have h2: "length [demoA, demoB, demoA] \<le> 3" by simp
  obtain r where r: "processMigration 3 demoEnv (dateAt 9000)
              (newSession ''s1'' [demoA, demoB, demoA] (demoConfig 2) (dateAt 0)) = Some r"
    and len: "int (length (batches r)) = \<lceil>real (length [demoA, demoB, demoA]) / BatchSize (demoConfig 2)\<rceil>"
    and bs: "batches r = map (\<lambda>k. take (nat \<lfloor>BatchSize (demoConfig 2)\<rfloor>)
                                 (drop (k * nat \<lfloor>BatchSize (demoConfig 2)\<rfloor>) [demoA, demoB, demoA]))
                            [0..<length (batches r)]"
    and cat: "concat (batches r) = [demoA, demoB, demoA]"
    and sz: "\<forall>k < length (batches r). length (batches r ! k) =
                   (if Suc k < length (batches r) then nat \<lfloor>BatchSize (demoConfig 2)\<rfloor>
                    else if length [demoA, demoB, demoA] mod nat \<lfloor>BatchSize (demoConfig 2)\<rfloor> = 0
                    then nat \<lfloor>BatchSize (demoConfig 2)\<rfloor>
                    else length [demoA, demoB, demoA] mod nat \<lfloor>BatchSize (demoConfig 2)\<rfloor>)"
    using batch_partition [OF h0 h1 h2, of demoEnv "dateAt 9000" "''s1''" "dateAt 0"] by blast
  have "\<lceil>(3::real) / 2\<rceil> = 2" by (simp add: ceiling_eq_iff)
  then have l2: "length (batches r) = 2" using len by (simp add: demoConfig_def)
  have "batches r = [[demoA, demoB], [demoA]]"
    using bs unfolding l2 by (simp add: demoConfig_def upt_rec)
  moreover have "length (batches r ! 1) = 3 mod 2"
    using sz l2 by (simp add: demoConfig_def)
  ultimately show ?thesis using h0 h1 h2 r cat l2 by simp
qed

text \<open>
  C2 as stated fails: the batch size is not clamped to the range from 1 to 50. With 51
  records and batch size 51 the loop forms one batch of 51 records, where a size clamped
  to 50 would give two batches of 50 and 1.
\<close>

theorem batch_size_not_clamped:
  "map_option (\<lambda>r. map length (batches r))
     (processMigration 51 demoEnv (dateAt 9000)
        (newSession ''s1'' (replicate 51 demoA) (demoConfig 51) (dateAt 0))) = Some [51]"
proof -
  have k: "iterations 51 51 = 1" by (simp add: iterations_def)
  have b: "(0::real) < 51" by simp
  have c: "cut 51 (Suc 0) = 51" "cut 51 0 = 0"
    using cut_whole [of 51 1] cut_whole [of 51 0] by simp_all
  show ?thesis
    using fold_runBatch_batches [OF b, of demoEnv "replicate 51 demoA" "[0]"]
    by (simp add: processMigration_closed newSession_def demoConfig_def k c finish_fields
        startRun_def)
qed

lemma itemCallback_catch:
  "w_settle w = Rejects e \<Longrightarrow>
   migrationResults (itemCallback s m w) = migrationResults s @ [failedResult m w e]"
  by (simp add: itemCallback_def simulateMigration_def Let_def)

lemma itemOutcome_catch: "w_settle w = Rejects e \<Longrightarrow> itemOutcome m w = failedResult m w e"
  by (simp add: itemOutcome_def simulateMigration_def)

text \<open>
  C4. When the move of an item raises \<open>e\<close>, the callback appends the failed result of the
  catch block and nothing else: its status is Failed, its mailbox is that of the item, and
  its error message is the message of \<open>e\<close> (the message of an \<open>Error\<close>; the text ``Unknown
  error'' for any other thrown value). An item whose move returns is Completed or Failed by
  its own answer alone. A batch appends the outcome of each of its items, whatever the
  other items did. For a batch size of at least 1 the run ends with the session completed
  and with exactly one result per item of the list, each the outcome of that item's own
  callback.
\<close>

theorem item_failure_isolated:
  "(w_settle w = Rejects e \<longrightarrow>
      migrationResults (itemCallback s m w) = migrationResults s @ [failedResult m w e]
      \<and> itemOutcome m w = failedResult m w e
      \<and> Status (failedResult m w e) = M_Failed
      \<and> ErrorMessage (failedResult m w e) = thrownMessage e
      \<and> SourceEmail (failedResult m w e) = SourceEmail m
      \<and> TargetEmail (failedResult m w e) = TargetEmail m
      \<and> DisplayName (failedResult m w e) = DisplayName m)
   \<and> thrownMessage (Error_with msg) = msg
   \<and> (w_settle w = Resolves a \<longrightarrow>
        Status (itemOutcome m w) = (if success a then M_Completed else M_Failed))
   \<and> migrationResults (session (runBatch env ml B i r)) =
       migrationResults (session r) @
       map (\<lambda>item. itemOutcome (snd item) (env (fst item)))
         (sort_key (\<lambda>item. w_settledAt (env (fst item))) (slice (enumerate 0 ml) i (i + B)))
   \<and> (1 \<le> BatchSize cfg \<and> length ml \<le> fuel \<longrightarrow>
        (\<exists>r'. processMigration fuel env endNow (newSession sid ml cfg now) = Some r'
           \<and> status (session r') = S_completed
           \<and> mset (migrationResults (session r')) =
               mset (map (\<lambda>item. itemOutcome (snd item) (env (fst item))) (enumerate 0 ml))))"
proof -
  have caught: "migrationResults (itemCallback s m w) = migrationResults s @ [failedResult m w e]
      \<and> itemOutcome m w = failedResult m w e
      \<and> Status (failedResult m w e) = M_Failed
      \<and> ErrorMessage (failedResult m w e) = thrownMessage e
      \<and> SourceEmail (failedResult m w e) = SourceEmail m
      \<and> TargetEmail (failedResult m w e) = TargetEmail m
      \<and> DisplayName (failedResult m w e) = DisplayName m"
    if "w_settle w = Rejects e"
    using itemCallback_catch [OF that] itemOutcome_catch [OF that] by (simp add: failedResult_def)
  have returned: "Status (itemOutcome m w) = (if success a then M_Completed else M_Failed)"
    if "w_settle w = Resolves a"
    using that by (simp add: itemOutcome_def simulateMigration_def Let_def)
  have whole: "\<exists>r'. processMigration fuel env endNow (newSession sid ml cfg now) = Some r'
           \<and> status (session r') = S_completed
           \<and> mset (migrationResults (session r')) =
               mset (map (\<lambda>item. itemOutcome (snd item) (env (fst item))) (enumerate 0 ml))"
    if B: "1 \<le> BatchSize cfg" and fuel: "length ml \<le> fuel"
  proof -
    define Bs where "Bs = BatchSize cfg"
    have pos: "0 < Bs" using B by (simp add: Bs_def)
    define K where "K = iterations (length ml) Bs"
    define s0 where "s0 = newSession sid ml cfg now"
    have s0: "mailboxList s0 = ml" "config s0 = cfg" "migrationResults s0 = []"
      by (simp_all add: s0_def newSession_def)
    define r' where "r' = finish endNow
       (fold (\<lambda>k. runBatch env ml Bs (real k * Bs)) [0..<K] (startRun s0))"
    have run: "processMigration fuel env endNow s0 = Some r'"
      using processMigration_closed [of s0 fuel env endNow] B fuel
      by (simp add: s0 r'_def K_def Bs_def)
    have st: "status (session r') = S_completed" by (simp add: r'_def finish_fields)
    have "length (enumerate 0 ml) \<le> cut Bs K"
      using iterations_covers [OF pos, of "length ml"] by (simp add: K_def)
    then have ms: "mset (migrationResults (session r')) =
                 mset (map (\<lambda>item. itemOutcome (snd item) (env (fst item))) (enumerate 0 ml))"
      using mset_concat_sorted_chunks [of Bs _ _ "enumerate 0 ml" K] pos
      by (simp add: r'_def finish_fields fold_runBatch_results [OF pos] startRun_def s0
          del: mset_map of_nat_Suc)
    show ?thesis using run st ms by (simp add: s0_def)
  qed
  show ?thesis
    using caught returned whole runBatch_results [of env ml B i r]
    by (simp add: thrownMessage_def)
qed

theorem item_failure_isolated_witness:
  "w_settle (demoEnv 1) = Rejects (Error_with ''connection lost'')
   \<and> w_settle (demoEnv 0) = Resolves \<lparr> success = True, moveRequestId = Some ''Move-1'', error = None \<rparr>
   \<and> 1 \<le> BatchSize (demoConfig 2) \<and> length [demoA, demoB] \<le> 2
   \<and> migrationResults (itemCallback demoStart demoB (demoEnv 1)) =
       [failedResult demoB (demoEnv 1) (Error_with ''connection lost'')]
   \<and> Status (itemOutcome demoB (demoEnv 1)) = M_Failed
   \<and> ErrorMessage (itemOutcome demoB (demoEnv 1)) = ''connection lost''
   \<and> Status (itemOutcome demoA (demoEnv 0)) = M_Completed
   \<and> map Status (migrationResults (session (runBatch demoEnv [demoA, demoB] 2 0 (startRun demoStart))))
       = [M_Failed, M_Completed]
   \<and> (\<exists>r'. processMigration 2 demoEnv (dateAt 9000)
              (newSession ''s1'' [demoA, demoB] (demoConfig 2) (dateAt 0)) = Some r'
          \<and> status (session r') = S_completed
          \<and> length (migrationResults (session r')) = 2)"
proof -
  have h1: "w_settle (demoEnv 1) = Rejects (Error_with ''connection lost'')"
    by (simp add: demoEnv_def)
  have h2: "w_settle (demoEnv 0) =
      Resolves \<lparr> success = True, moveRequestId = Some ''Move-1'', error = None \<rparr>"
    by (simp add: demoEnv_def)
  have h3: "1 \<le> BatchSize (demoConfig 2) \<and> length [demoA, demoB] \<le> 2"
    by (simp add: demoConfig_def)
  note raised = item_failure_isolated [where w = "demoEnv 1" and e = "Error_with ''connection lost''"
      and s = demoStart and m = demoB and msg = "''connection lost''" and env = demoEnv
      and ml = "[demoA, demoB]" and B = 2 and i = 0 and r = "startRun demoStart"
      and cfg = "demoConfig 2" and fuel = 2 and endNow = "dateAt 9000" and sid = "''s1''"
      and now = "dateAt 0"
      and a = "\<lparr> success = True, moveRequestId = Some ''Move-1'', error = None \<rparr>"]
  note returned = item_failure_isolated [where w = "demoEnv 0" and m = demoA
      and a = "\<lparr> success = True, moveRequestId = Some ''Move-1'', error = None \<rparr>"
      and e = "Error_with ''connection lost''" and s = demoStart and msg = "''connection lost''"
      and env = demoEnv and ml = "[demoA, demoB]" and B = 2 and i = 0 and r = "startRun demoStart"
      and cfg = "demoConfig 2" and fuel = 2 and endNow = "dateAt 9000" and sid = "''s1''"
      and now = "dateAt 0"]
  from raised h1 h3 obtain r' where run: "processMigration 2 demoEnv (dateAt 9000)
              (newSession ''s1'' [demoA, demoB] (demoConfig 2) (dateAt 0)) = Some r'"
    and st: "status (session r') = S_completed"
    and ms: "mset (migrationResults (session r')) =
               mset (map (\<lambda>item. itemOutcome (snd item) (demoEnv (fst item)))
                      (enumerate 0 [demoA, demoB]))"
    by blast
  have "length (migrationResults (session r')) = length (enumerate 0 [demoA, demoB])"
    using mset_eq_length [OF ms] by simp
  then have len: "length (migrationResults (session r')) = 2" by simp
  have a: "Status (itemOutcome demoA (demoEnv 0)) = M_Completed"
    using returned h2 by simp
  have b: "migrationResults (itemCallback demoStart demoB (demoEnv 1)) =
       [failedResult demoB (demoEnv 1) (Error_with ''connection lost'')]"
    "Status (itemOutcome demoB (demoEnv 1)) = M_Failed"
    "ErrorMessage (itemOutcome demoB (demoEnv 1)) = ''connection lost''"
    using raised h1 by (simp_all add: demoStart_def newSession_def)
  have c: "map Status (migrationResults (session (runBatch demoEnv [demoA, demoB] 2 0 (startRun demoStart))))
       = [M_Failed, M_Completed]"
    using raised a b(2)
    by (simp add: startRun_def demoStart_def newSession_def slice_def toInteger_def enumerate_eq_zip
        demoEnv_def Let_def)
  show ?thesis
    using h1 h2 h3 a b c run st len by blast
qed


section \<open>Validation\<close>

lemma validate_policy_aux:
  "ValidationStatus (validateMailbox localeText mailbox sourceValidation) =
     (if \<not> exists sourceValidation \<or> \<not> emailRegex_test (TargetEmail mailbox) then V_Failed
      else if (case sizeMB sourceValidation of None \<Rightarrow> 0 | Some x \<Rightarrow> x) > 10000 then V_Warning
      else V_Passed)
   \<and> ValidationIssues (validateMailbox localeText mailbox sourceValidation) =
     (if \<not> exists sourceValidation then [''Source mailbox not found'']
      else if \<not> emailRegex_test (TargetEmail mailbox) then [''Invalid target email format'']
      else if (case sizeMB sourceValidation of None \<Rightarrow> 0 | Some x \<Rightarrow> x) > 10000
        then [''Large mailbox (>10GB) - migration may take extended time'']
      else [])"
  by (simp add: validateMailbox_def Let_def split: option.splits)

text \<open>
  C6. \<open>validateMailbox\<close> returns Failed when the source mailbox does not exist or the
  target address does not match the address pattern, and then the only issue recorded is
  that failure (the size is not looked at); otherwise it returns Warning exactly when the
  source size is above 10000, with the large-mailbox issue, and Passed with no issue
  otherwise.
\<close>

theorem validate_policy:
  "ValidationStatus (validateMailbox localeText mailbox sourceValidation) =
     (if \<not> exists sourceValidation \<or> \<not> emailRegex_test (TargetEmail mailbox) then V_Failed
      else if (case sizeMB sourceValidation of None \<Rightarrow> 0 | Some x \<Rightarrow> x) > 10000 then V_Warning
      else V_Passed)
   \<and> ValidationIssues (validateMailbox localeText mailbox sourceValidation) =
     (if \<not> exists sourceValidation then [''Source mailbox not found'']
      else if \<not> emailRegex_test (TargetEmail mailbox) then [''Invalid target email format'']
      else if (case sizeMB sourceValidation of None \<Rightarrow> 0 | Some x \<Rightarrow> x) > 10000
        then [''Large mailbox (>10GB) - migration may take extended time'']
      else [])"
  by (simp add: validateMailbox_def Let_def split: option.splits)


theorem validate_policy_witness:
  "emailRegex_test (TargetEmail demoA) \<and> exists (detailsOfSize 20000)
   \<and> ValidationStatus (validateMailbox demoLocale demoA (detailsOfSize 20000)) = V_Warning
   \<and> ValidationStatus (validateMailbox demoLocale demoA (detailsOfSize 10000)) = V_Passed
   \<and> ValidationStatus (validateMailbox demoLocale demoA ((detailsOfSize 20000)\<lparr> exists := False \<rparr>))
       = V_Failed
   \<and> ValidationIssues (validateMailbox demoLocale demoA ((detailsOfSize 20000)\<lparr> exists := False \<rparr>))
       = [''Source mailbox not found'']
   \<and> ValidationStatus (validateMailbox demoLocale (demoA\<lparr> TargetEmail := ''a at y.com'' \<rparr>)
         (detailsOfSize 20000)) = V_Failed
   \<and> ValidationIssues (validateMailbox demoLocale (demoA\<lparr> TargetEmail := ''a at y.com'' \<rparr>)
         (detailsOfSize 20000)) = [''Invalid target email format'']"
proof -
  have ok: "emailRegex_test (TargetEmail demoA)"
    by (simp add: demoA_def emailRegex_test_def notSpaceOrAt_def upt_rec)
  have bad: "\<not> emailRegex_test (TargetEmail (demoA\<lparr> TargetEmail := ''a at y.com'' \<rparr>))"
    by (simp add: demoA_def emailRegex_test_def notSpaceOrAt_def upt_rec)
  show ?thesis
    using ok bad
      validate_policy [of demoLocale demoA "detailsOfSize 20000"]
      validate_policy [of demoLocale demoA "detailsOfSize 10000"]
      validate_policy [of demoLocale demoA "(detailsOfSize 20000)\<lparr> exists := False \<rparr>"]
      validate_policy [of demoLocale "demoA\<lparr> TargetEmail := ''a at y.com'' \<rparr>" "detailsOfSize 20000"]
    by (simp add: detailsOfSize_def)
qed

text \<open>
  C7, as amended. Two runs of \<open>validateMailbox\<close> on the same record return the same status
  and the same issue list when the lookup gives the same existence answer and sizes on the
  same side of the threshold of 10000 MB. In simulation mode this holds for any two runs:
  existence is fixed by the address, and the simulated size \<open>r * 5000 + 100\<close> with
  \<open>0 \<le> r < 1\<close> is below the threshold.
\<close>

theorem validation_determinism:
  assumes "exists a1 = exists a2"
    and "((case sizeMB a1 of None \<Rightarrow> 0 | Some x \<Rightarrow> x) > 10000)
       = ((case sizeMB a2 of None \<Rightarrow> 0 | Some x \<Rightarrow> x) > 10000)"
    and "0 \<le> r1 \<and> r1 < 1" and "0 \<le> r1' \<and> r1' < 1"
  shows "ValidationStatus (validateMailbox loc mailbox a1) = ValidationStatus (validateMailbox loc' mailbox a2)
       \<and> ValidationIssues (validateMailbox loc mailbox a1) = ValidationIssues (validateMailbox loc' mailbox a2)
       \<and> ValidationStatus (validateMailbox loc mailbox (mockValidateMailbox (SourceEmail mailbox) r1 r2))
         = ValidationStatus (validateMailbox loc' mailbox (mockValidateMailbox (SourceEmail mailbox) r1' r2'))
       \<and> ValidationIssues (validateMailbox loc mailbox (mockValidateMailbox (SourceEmail mailbox) r1 r2))
         = ValidationIssues (validateMailbox loc' mailbox (mockValidateMailbox (SourceEmail mailbox) r1' r2'))"
proof -
  have small: "\<not> r * 5000 + 100 > 10000" if "0 \<le> r \<and> r < 1" for r :: real
    using that by simp
  have general: "ValidationStatus (validateMailbox loc mailbox a1) = ValidationStatus (validateMailbox loc' mailbox a2)
       \<and> ValidationIssues (validateMailbox loc mailbox a1) = ValidationIssues (validateMailbox loc' mailbox a2)"
    using assms(1,2)
      validate_policy_aux [of loc mailbox a1] validate_policy_aux [of loc' mailbox a2]
    by simp
  have mock: "ValidationStatus (validateMailbox loc mailbox (mockValidateMailbox (SourceEmail mailbox) r1 r2))
         = ValidationStatus (validateMailbox loc' mailbox (mockValidateMailbox (SourceEmail mailbox) r1' r2'))
       \<and> ValidationIssues (validateMailbox loc mailbox (mockValidateMailbox (SourceEmail mailbox) r1 r2))
         = ValidationIssues (validateMailbox loc' mailbox (mockValidateMailbox (SourceEmail mailbox) r1' r2'))"
    using small [OF assms(3)] small [OF assms(4)]
      validate_policy_aux [of loc mailbox "mockValidateMailbox (SourceEmail mailbox) r1 r2"]
      validate_policy_aux [of loc' mailbox "mockValidateMailbox (SourceEmail mailbox) r1' r2'"]
    by (simp add: mockValidateMailbox_def Let_def)
  from general mock show ?thesis by simp
qed

theorem validation_determinism_witness:
  "exists (detailsOfSize 300) = exists (detailsOfSize 4000)
   \<and> ((case sizeMB (detailsOfSize 300) of None \<Rightarrow> 0 | Some x \<Rightarrow> x) > 10000)
     = ((case sizeMB (detailsOfSize 4000) of None \<Rightarrow> 0 | Some x \<Rightarrow> x) > 10000)
   \<and> (0::real) \<le> 1 / 4 \<and> (1::real) / 4 < 1 \<and> (0::real) \<le> 3 / 4 \<and> (3::real) / 4 < 1
   \<and> ValidationStatus (validateMailbox demoLocale demoA (detailsOfSize 300))
     = ValidationStatus (validateMailbox demoLocale demoA (detailsOfSize 4000))
   \<and> ValidationIssues (validateMailbox demoLocale demoA (detailsOfSize 300))
     = ValidationIssues (validateMailbox demoLocale demoA (detailsOfSize 4000))
   \<and> ValidationStatus (validateMailbox demoLocale demoA (mockValidateMailbox (SourceEmail demoA) (1 / 4) 0))
     = ValidationStatus (validateMailbox demoLocale demoA (mockValidateMailbox (SourceEmail demoA) (3 / 4) 0))
   \<and> ValidationIssues (validateMailbox demoLocale demoA (mockValidateMailbox (SourceEmail demoA) (1 / 4) 0))
     = ValidationIssues (validateMailbox demoLocale demoA (mockValidateMailbox (SourceEmail demoA) (3 / 4) 0))"
proof -
  have h1: "exists (detailsOfSize 300) = exists (detailsOfSize 4000)"
    by (simp add: detailsOfSize_def)
  have h2: "((case sizeMB (detailsOfSize 300) of None \<Rightarrow> 0 | Some x \<Rightarrow> x) > 10000)
     = ((case sizeMB (detailsOfSize 4000) of None \<Rightarrow> 0 | Some x \<Rightarrow> x) > 10000)"
    by (simp add: detailsOfSize_def)
  have h3: "(0::real) \<le> 1 / 4 \<and> (1::real) / 4 < 1" by simp
  have h4: "(0::real) \<le> 3 / 4 \<and> (3::real) / 4 < 1" by simp
  show ?thesis
    using validation_determinism [OF h1 h2 h3 h4, of demoLocale demoA demoLocale 0 0] h1 h2
    by simp
qed

text \<open>
  C7 as stated fails: with the same existence answer, a lookup that reports 5000 MB gives
  Passed with no issue and one that reports 20000 MB gives Warning with an issue.
\<close>

theorem validation_depends_on_size:
  "exists (detailsOfSize 5000) = exists (detailsOfSize 20000)
   \<and> ValidationStatus (validateMailbox demoLocale demoA (detailsOfSize 5000)) = V_Passed
   \<and> ValidationStatus (validateMailbox demoLocale demoA (detailsOfSize 20000)) = V_Warning
   \<and> ValidationIssues (validateMailbox demoLocale demoA (detailsOfSize 5000))
       \<noteq> ValidationIssues (validateMailbox demoLocale demoA (detailsOfSize 20000))"
proof -
  have ok: "emailRegex_test (TargetEmail demoA)"
    by (simp add: demoA_def emailRegex_test_def notSpaceOrAt_def upt_rec)
  show ?thesis
    using ok validate_policy_aux [of demoLocale demoA "detailsOfSize 5000"]
      validate_policy_aux [of demoLocale demoA "detailsOfSize 20000"]
    by (simp add: detailsOfSize_def)
qed


section \<open>The progress stream for an unknown session\<close>

lemma closed_stream_stays:
  "\<not> timerActive st \<Longrightarrow> closed st \<Longrightarrow> fold (streamStep sid) inputs st = st"
proof (induction inputs)
  case Nil
  then show ?case by simp
next
  case (Cons inp inputs)
  then have "streamStep sid inp st = st"
    by (cases inp) (simp_all add: streamStep_def closeStream_def)
  then show ?case using Cons by simp
qed

lemma tick_unknown:
  "activeSessions store sid = None \<Longrightarrow>
   tick sid store st = closeStream (sendEvent (ErrorEvent ''Session not found'') st)"
  by (simp add: tick_def)

text \<open>
  C5. A progress request with a \<open>sessionId\<close> for which the first tick finds no session:
  the stream holds the connection message and one error event, it is closed and its timer
  is cleared at that tick, and whatever happens afterwards (later ticks, even with the
  session present by then, or a disconnect) adds nothing; so no progress and no complete
  event is ever sent on it. (A request without a \<open>sessionId\<close> is answered with status 400
  and has no stream.)
\<close>

theorem unknown_session_stream:
  assumes "sid \<noteq> []" and "activeSessions store sid = None"
  shows "progressStream (Some sid) (Tick store # rest) =
           Inr \<lparr> sent = [Connected ''Progress stream connected'', ErrorEvent ''Session not found''],
                 timerActive = False, closed = True \<rparr>"
proof -
  let ?st0 = "sendEvent (Connected ''Progress stream connected'')
                \<lparr> sent = [], timerActive = True, closed = False \<rparr>"
  let ?st1 = "\<lparr> sent = [Connected ''Progress stream connected'', ErrorEvent ''Session not found''],
                 timerActive = False, closed = True \<rparr>"
  have first: "streamStep sid (Tick store) ?st0 = ?st1"
    using assms(2) by (simp add: streamStep_def tick_unknown sendEvent_def closeStream_def)
  have "fold (streamStep sid) rest ?st1 = ?st1"
    by (rule closed_stream_stays) simp_all
  then show ?thesis
    using assms(1) first by (simp add: progressStream_def GET_progress_def)
qed

theorem unknown_session_stream_witness:
  "''nope'' \<noteq> [] \<and> activeSessions emptyStore ''nope'' = None
   \<and> progressStream (Some ''nope'') [Tick emptyStore, Tick demoStore, Abort] =
       Inr \<lparr> sent = [Connected ''Progress stream connected'', ErrorEvent ''Session not found''],
             timerActive = False, closed = True \<rparr>"
proof -
  have h1: "''nope'' \<noteq> []" by simp
  have h2: "activeSessions emptyStore ''nope'' = None" by (simp add: emptyStore_def)
  show ?thesis
    using unknown_session_stream [OF h1 h2, of "[Tick demoStore, Abort]"] h2 by simp
qed

section \<open>Durations\<close>

lemma digit_char: "k < 10 \<Longrightarrow> of_char (''0123456789'' ! k) = 48 + k \<and> ''0123456789'' ! k \<noteq> CHR '':''"
proof -
  assume "k < 10"
  then have "k = 0 \<or> k = 1 \<or> k = 2 \<or> k = 3 \<or> k = 4 \<or> k = 5 \<or> k = 6 \<or> k = 7
    \<or> k = 8 \<or> k = 9" by arith
  then show ?thesis by (elim disjE) simp_all
qed

lemma readNat_snoc: "readNat (s @ [c]) = 10 * readNat s + (of_char c - 48)"
  by (simp add: readNat_def)

lemma readNat_digits: "readNat (digits n) = n"
proof (induction n rule: digits.induct)
  case (1 n)
  show ?case
  proof (cases "n < 10")
    case True
    then show ?thesis
      using digit_char [of n] by (subst digits.simps) (simp add: readNat_def)
  next
    case False
    have "n mod 10 < 10" by simp
    then have "of_char (''0123456789'' ! (n mod 10)) = 48 + n mod 10"
      using digit_char by blast
    then show ?thesis
      using False 1 by (subst digits.simps) (simp add: readNat_snoc)
  qed
qed

lemma digits_no_colon: "CHR '':'' \<notin> set (digits n)"
proof (induction n rule: digits.induct)
  case (1 n)
  show ?case
  proof (cases "n < 10")
    case True
    then show ?thesis using digit_char [of n] by (subst digits.simps) auto
  next
    case False
    have "n mod 10 < 10" by simp
    then have "''0123456789'' ! (n mod 10) \<noteq> CHR '':''" using digit_char by blast
    then show ?thesis using False 1 by (subst digits.simps) auto
  qed
qed

lemma digits_length: "length (digits n) = (if n < 10 then 1 else Suc (length (digits (n div 10))))"
  by (subst digits.simps) simp

lemma digits_nonempty: "digits n \<noteq> []"
  by (subst digits.simps) simp

lemma digits_length_le2:
  assumes "n < 100"
  shows "length (digits n) \<le> 2"
proof (cases "n < 10")
  case True
  then show ?thesis by (subst digits.simps) simp
next
  case False
  have "n div 10 < 10" using assms by simp
  then have "length (digits (n div 10)) = 1" by (subst digits.simps) simp
  then show ?thesis using False by (subst digits.simps) simp
qed

lemma readNat_zeros: "readNat (replicate k CHR ''0'' @ s) = readNat s"
proof -
  have "foldl (\<lambda>a c. 10 * a + (of_char c - 48)) 0 (replicate k CHR ''0'') = (0::nat)"
    by (induction k) simp_all
  then show ?thesis by (simp add: readNat_def)
qed

lemma padStart2_digits:
  "readNat (padStart2 (digits n)) = n"
  "CHR '':'' \<notin> set (padStart2 (digits n))"
  "2 \<le> length (padStart2 (digits n))"
  "n < 100 \<Longrightarrow> length (padStart2 (digits n)) = 2"
proof -
  show "readNat (padStart2 (digits n)) = n"
    by (simp add: padStart2_def readNat_zeros readNat_digits)
  show "CHR '':'' \<notin> set (padStart2 (digits n))"
    using digits_no_colon [of n] by (auto simp: padStart2_def)
  show "2 \<le> length (padStart2 (digits n))"
    by (simp add: padStart2_def)
  show "length (padStart2 (digits n)) = 2" if "n < 100"
    using digits_length_le2 [OF that] by (simp add: padStart2_def)
qed

lemma formatDuration_nonneg:
  assumes "0 \<le> d"
  shows "formatDuration d =
           padStart2 (digits (nat (d div 60000))) @ '':'' @ padStart2 (digits (nat (d mod 60000 div 1000)))"
proof -
  have "d smod 60000 = d mod 60000"
    using assms by (simp add: smod_int_alt_def sgn_if)
  moreover have "\<not> d div 60000 < 0"
    using assms by (simp add: not_less pos_imp_zdiv_nonneg_iff)
  moreover have "\<not> d mod 60000 div 1000 < 0"
    by (simp add: not_less pos_imp_zdiv_nonneg_iff)
  ultimately show ?thesis
    by (simp add: formatDuration_def toString_def Let_def)
qed

lemma split_fields:
  assumes "CHR '':'' \<notin> set m"
  shows "minutesField (m @ '':'' @ s) = m" and "secondsField (m @ '':'' @ s) = s"
proof -
  have "takeWhile (\<lambda>c. c \<noteq> CHR '':'') (m @ CHR '':'' # s) = m"
    using assms by (induction m) auto
  then show "minutesField (m @ '':'' @ s) = m" by (simp add: minutesField_def)
  have "dropWhile (\<lambda>c. c \<noteq> CHR '':'') (m @ CHR '':'' # s) = CHR '':'' # s"
    using assms by (induction m) auto
  then show "secondsField (m @ '':'' @ s) = s" by (simp add: secondsField_def)
qed

text \<open>
  C8, as amended. For every item whose move returned, with the end not before the start,
  the recorded \<open>Duration\<close> is the difference of the two clock readings printed as minutes,
  a colon and seconds. The seconds field has exactly two digits. The minutes field is
  padded to at least two digits and denotes the whole number of minutes: there is no hour
  component and no reduction modulo 60, so from 60 minutes on the field reads 60 or more,
  and from 100 minutes on it has more than two digits.
\<close>

theorem duration_format:
  assumes "simulateMigration mailbox w = Inr result"
    and "getTime (w_startTime w) \<le> getTime (w_finishTime w)"
  shows "\<exists>shown. Duration result = Some shown
           \<and> shown = formatDuration (getTime (w_finishTime w) - getTime (w_startTime w))
           \<and> shown = minutesField shown @ '':'' @ secondsField shown
           \<and> readNat (minutesField shown) =
               nat ((getTime (w_finishTime w) - getTime (w_startTime w)) div 60000)
           \<and> readNat (secondsField shown) =
               nat ((getTime (w_finishTime w) - getTime (w_startTime w)) mod 60000 div 1000)
           \<and> 2 \<le> length (minutesField shown)
           \<and> length (secondsField shown) = 2
           \<and> (length (minutesField shown) = 2 \<longleftrightarrow>
                getTime (w_finishTime w) - getTime (w_startTime w) < 6000000)"
proof -
  define d where "d = getTime (w_finishTime w) - getTime (w_startTime w)"
  have d: "0 \<le> d" using assms(2) by (simp add: d_def)
  define mm where "mm = nat (d div 60000)"
  define ss where "ss = nat (d mod 60000 div 1000)"
  have fd: "formatDuration d = padStart2 (digits mm) @ '':'' @ padStart2 (digits ss)"
    using formatDuration_nonneg [OF d] by (simp add: mm_def ss_def)
  have dur: "Duration result = Some (formatDuration d)"
    using assms(1)
    by (auto simp: simulateMigration_def Let_def d_def split: settle.splits if_splits)
  have mf: "minutesField (formatDuration d) = padStart2 (digits mm)"
    and sf: "secondsField (formatDuration d) = padStart2 (digits ss)"
    unfolding fd by (rule split_fields, rule padStart2_digits(2))+
  have "d mod 60000 < 60000" by simp
  then have "d mod 60000 div 1000 < 60" by simp
  then have ss60: "ss < 100" by (simp add: ss_def)
  have three: "length (padStart2 (digits mm)) = 2 \<longleftrightarrow> d < 6000000"
  proof (cases "mm < 100")
    case True
    then have "d div 60000 < 100" using d by (simp add: mm_def)
    then have "d < 6000000" by simp
    then show ?thesis using padStart2_digits(4) [OF True] by simp
  next
    case False
    then have "100 \<le> d div 60000" by (simp add: mm_def)
    then have big: "\<not> d < 6000000" by simp
    have "\<not> mm < 10" "\<not> mm div 10 < 10" using False by simp_all
    then have "3 \<le> length (digits mm)"
      by (simp add: digits_length [of mm] digits_length [of "mm div 10"]
            digits_length [of "mm div 10 div 10"])
    then show ?thesis using big by (simp add: padStart2_def)
  qed
  show ?thesis
    using dur fd mf sf padStart2_digits(1) [of mm] padStart2_digits(1) [of ss]
      padStart2_digits(3) [of mm] padStart2_digits(4) [OF ss60] three
    by (simp add: d_def [symmetric] mm_def [symmetric] ss_def [symmetric])
qed

text \<open>
  C8 as stated fails in its last part: a duration of 60 minutes does not wrap. An item
  that starts at 0 and finishes at 3600000 milliseconds is recorded with \<open>60:00\<close>, not
  with \<open>00:00\<close>.
\<close>

theorem duration_minutes_not_wrapped:
  "map_sum id Duration (simulateMigration demoA hourWorld) = Inr (Some ''60:00'')
   \<and> map_sum id Duration (simulateMigration demoA hourWorld) \<noteq> Inr (Some ''00:00'')"
  by (simp add: simulateMigration_def hourWorld_def demoEnv_def dateAt_def formatDuration_def
      toString_def padStart2_def digits_small digits_step Let_def)


theorem duration_format_witness:
  "simulateMigration demoA hourWorld = Inr hourResult
   \<and> getTime (w_startTime hourWorld) \<le> getTime (w_finishTime hourWorld)
   \<and> (\<exists>shown. Duration hourResult = Some shown
          \<and> shown = ''60:00''
          \<and> readNat (minutesField shown) = 60
          \<and> readNat (secondsField shown) = 0
          \<and> length (secondsField shown) = 2)"
proof -
  have sim: "simulateMigration demoA hourWorld = Inr hourResult"
    by (simp add: simulateMigration_def hourWorld_def hourResult_def demoA_def demoEnv_def
        dateAt_def formatDuration_def toString_def padStart2_def digits_small digits_step Let_def)
  have le: "getTime (w_startTime hourWorld) \<le> getTime (w_finishTime hourWorld)"
    by (simp add: hourWorld_def dateAt_def)
  obtain shown where t: "Duration hourResult = Some shown"
    and m: "readNat (minutesField shown) =
              nat ((getTime (w_finishTime hourWorld) - getTime (w_startTime hourWorld)) div 60000)"
    and s: "readNat (secondsField shown) =
              nat ((getTime (w_finishTime hourWorld) - getTime (w_startTime hourWorld)) mod 60000 div 1000)"
    and l: "length (secondsField shown) = 2"
    using duration_format [OF sim le] by blast
  have "shown = ''60:00''" using t by (simp add: hourResult_def)
  moreover have "readNat (minutesField shown) = 60"
    using m by (simp add: hourWorld_def dateAt_def)
  moreover have "readNat (secondsField shown) = 0"
    using s by (simp add: hourWorld_def dateAt_def)
  ultimately show ?thesis using sim le t l by simp
qed


section \<open>Reports\<close>

subsection \<open>Reading the document export\<close>


















subsection \<open>Reading the delimited export\<close>












end
